theory Spec2Isabelle
  imports Main "HOL-Library.Word"
begin

section \<open>OS utilities of libmamba (\<^verbatim>\<open>core/util_os.cpp\<close>)\<close>

text \<open>
  The functions of \<^verbatim>\<open>util_os.cpp\<close> talk to the operating system. Each one is embedded as a
  function of the facts the operating system reports to it (an environment, the result of a
  subprocess, the registry, the console) that returns the value of the source function together
  with the effects it performs (log events, operating-system calls), in the order of the source.
  A thrown exception is a value \<open>Inl e\<close> of a sum type.
\<close>

subsection \<open>Log events and exceptions\<close>

datatype log_level = LOG_DEBUG | LOG_INFO | LOG_WARNING | LOG_ERROR

type_synonym log_event = "log_level \<times> string"

datatype exn =
    RuntimeError string      \<comment> \<open>\<^verbatim>\<open>std::runtime_error(what)\<close>\<close>
  | InvalidArgument string   \<comment> \<open>\<^verbatim>\<open>std::invalid_argument\<close>, thrown by \<^verbatim>\<open>std::stoull\<close>\<close>
  | OutOfRange string        \<comment> \<open>\<^verbatim>\<open>std::out_of_range\<close>, thrown by \<^verbatim>\<open>std::stoull\<close>\<close>
  | LengthError              \<comment> \<open>\<^verbatim>\<open>std::length_error\<close>, thrown by \<^verbatim>\<open>resize\<close>\<close>
  | RegException             \<comment> \<open>\<^verbatim>\<open>winreg::RegException\<close>\<close>
  | IndexOutOfBounds nat nat \<comment> \<open>\<^verbatim>\<open>v[i]\<close> on a vector of \<open>n\<close> elements with \<open>n \<le> i\<close>: undefined behaviour\<close>
  | AssertionFailed          \<comment> \<open>a failed \<^verbatim>\<open>assert\<close>\<close>

subsection \<open>Console code pages: \<^verbatim>\<open>init_console\<close>, \<^verbatim>\<open>reset_console\<close>\<close>

text \<open>
  The process-wide state of the Windows variant: the console's two code pages and the buffering
  of standard output, which belong to the operating system, and the three \<^verbatim>\<open>static std::atomic\<close>
  variables of the source (lines 406 to 408). \<^verbatim>\<open>GetConsoleCP\<close> returns a \<^verbatim>\<open>UINT\<close> (an unsigned 32-bit
  word); the atomics hold an \<^verbatim>\<open>int\<close>, so the source reads the word as a
  two's complement number on the way in (\<open>sint\<close>) and converts back on the way out.
\<close>

record console_state =
  console_cp :: "32 word"
  console_output_cp :: "32 word"
  stdout_fully_buffered :: bool
  init_console_cp :: int
  init_console_output_cp :: int
  init_console_initialized :: bool

definition CP_UTF8 :: "32 word" where
  "CP_UTF8 = 65001"

text \<open>The state at process start: the atomics are initialised with \<open>0\<close>, \<open>0\<close> and \<open>false\<close>.\<close>

definition process_start :: "32 word \<Rightarrow> 32 word \<Rightarrow> bool \<Rightarrow> console_state" where
  "process_start cp ocp buffered =
     \<lparr>console_cp = cp, console_output_cp = ocp, stdout_fully_buffered = buffered,
      init_console_cp = 0, init_console_output_cp = 0, init_console_initialized = False\<rparr>"

definition init_console :: "console_state \<Rightarrow> console_state" where
  "init_console s =
     (let s1 = s\<lparr>init_console_cp := sint (console_cp s)\<rparr>;
          s2 = s1\<lparr>init_console_output_cp := sint (console_output_cp s1)\<rparr>;
          s3 = s2\<lparr>init_console_initialized := True\<rparr>;
          s4 = s3\<lparr>console_cp := CP_UTF8\<rparr>;
          s5 = s4\<lparr>console_output_cp := CP_UTF8\<rparr>
      in s5\<lparr>stdout_fully_buffered := True\<rparr>)"

definition reset_console :: "console_state \<Rightarrow> console_state" where
  "reset_console s =
     (if init_console_initialized s
      then (let s1 = s\<lparr>console_cp := word_of_int (init_console_cp s)\<rparr>
            in s1\<lparr>console_output_cp := word_of_int (init_console_output_cp s1)\<rparr>)
      else s)"

text \<open>
  What can happen to the state during the life of the process: the two functions of the source,
  and any other code setting a console code page (\<^verbatim>\<open>SetConsoleCP\<close>, \<^verbatim>\<open>SetConsoleOutputCP\<close>).
\<close>

datatype console_op =
    InitConsole
  | ResetConsole
  | OtherSetConsoleCP "32 word"
  | OtherSetConsoleOutputCP "32 word"

fun console_step :: "console_state \<Rightarrow> console_op \<Rightarrow> console_state" where
  "console_step s InitConsole = init_console s"
| "console_step s ResetConsole = reset_console s"
| "console_step s (OtherSetConsoleCP cp) = s\<lparr>console_cp := cp\<rparr>"
| "console_step s (OtherSetConsoleOutputCP cp) = s\<lparr>console_output_cp := cp\<rparr>"

fun console_run :: "console_state \<Rightarrow> console_op list \<Rightarrow> console_state" where
  "console_run s [] = s"
| "console_run s (op # ops) = console_run (console_step s op) ops"

fun is_init :: "console_op \<Rightarrow> bool" where
  "is_init InitConsole = True"
| "is_init _ = False"

subsection \<open>\<^verbatim>\<open>run_as_admin\<close>\<close>

text \<open>
  What the operating system answers to the three calls of \<^verbatim>\<open>run_as_admin\<close>: whether
  \<^verbatim>\<open>ShellExecuteEx\<close> with the verb \<^verbatim>\<open>runas\<close> started the process, and the exit code that
  \<^verbatim>\<open>GetExitCodeProcess\<close> stores once \<^verbatim>\<open>WaitForSingleObject\<close> has returned.
\<close>

record elevation_os =
  shell_execute_ok :: bool
  child_exit_code :: "32 word"

datatype os_call =
    ShellExecuteEx string string string   \<comment> \<open>verb, file, parameters\<close>
  | WaitForSingleObject_INFINITE
  | GetExitCodeProcess
  | CloseHandle

record admin_result =
  returned :: bool
  admin_logs :: "log_event list"
  admin_calls :: "os_call list"

definition run_as_admin :: "elevation_os \<Rightarrow> string \<Rightarrow> string \<Rightarrow> admin_result" where
  "run_as_admin os exe args =
     (if \<not> shell_execute_ok os
      then \<lparr>returned = False,
            admin_logs = [(LOG_WARNING, ''Could not start process as admin.'')],
            admin_calls = [ShellExecuteEx ''runas'' exe args]\<rparr>
      else
        (let ExitCode = child_exit_code os;
             calls = [ShellExecuteEx ''runas'' exe args, WaitForSingleObject_INFINITE,
                      GetExitCodeProcess, CloseHandle]
         in if ExitCode \<noteq> 0
            then \<lparr>returned = False,
                  admin_logs = [(LOG_WARNING, ''Process exited with code != 0.'')],
                  admin_calls = calls\<rparr>
            else \<lparr>returned = True, admin_logs = [], admin_calls = calls\<rparr>))"

subsection \<open>String helpers\<close>

text \<open>
  Modelled from the spec: \<^verbatim>\<open>env::get\<close>, \<^verbatim>\<open>strip\<close>, \<^verbatim>\<open>split\<close> and \<^verbatim>\<open>concat\<close> are declared in
  other files of the repository (\<^verbatim>\<open>mamba/core/environment.hpp\<close>, \<^verbatim>\<open>mamba/core/util.hpp\<close>). The
  spec treats them as pure helpers with the obvious contracts: an override variable counts
  when it is set and non-empty, so \<^verbatim>\<open>env::get\<close> of an unset variable is the empty string;
  \<^verbatim>\<open>strip\<close> removes the white space at both ends; \<^verbatim>\<open>split\<close> cuts at every separator and keeps
  empty components, so a text with \<open>n\<close> separators has \<open>n + 1\<close> components; \<^verbatim>\<open>concat\<close> joins
  its arguments.
\<close>

definition env_get :: "(string \<rightharpoonup> string) \<Rightarrow> string \<Rightarrow> string" where
  "env_get env key = (case env key of None \<Rightarrow> [] | Some v \<Rightarrow> v)"

definition is_space :: "char \<Rightarrow> bool" where
  "is_space c = (c \<in> set [CHR '' '', CHR 0x09, CHR 0x0A, CHR 0x0B, CHR 0x0C, CHR 0x0D])"

definition strip :: "string \<Rightarrow> string" where
  "strip s = rev (dropWhile is_space (rev (dropWhile is_space s)))"

fun split :: "string \<Rightarrow> char \<Rightarrow> string list" where
  "split [] sep = [[]]"
| "split (c # cs) sep =
     (if c = sep then [] # split cs sep
      else (case split cs sep of [] \<Rightarrow> [[c]] | x # xs \<Rightarrow> (c # x) # xs))"

definition concat_strings :: "string list \<Rightarrow> string" where
  "concat_strings parts = concat parts"

text \<open>
  \<^verbatim>\<open>v[i]\<close> on a \<^verbatim>\<open>std::vector\<close>: the source never checks the index, and an index that is out of
  range is undefined behaviour, which the model makes a failure.
\<close>

definition at_index :: "'a list \<Rightarrow> nat \<Rightarrow> exn + 'a" where
  "at_index v i = (if i < length v then Inr (v ! i) else Inl (IndexOutOfBounds (length v) i))"

subsection \<open>Regular expressions of the source\<close>

text \<open>
  The two patterns of the source use character classes, the quantifiers \<^verbatim>\<open>*\<close> and \<^verbatim>\<open>+\<close> on a
  single character class, sequencing and groups. \<^verbatim>\<open>std::regex\<close> (ECMAScript grammar) matches by
  backtracking: a quantifier is greedy, and the first way to match, in that order, that lets the
  rest of the pattern match is the one whose groups are reported. The classes are those of the
  \<^verbatim>\<open>"C"\<close> locale.
\<close>

definition is_digit :: "char \<Rightarrow> bool" where
  "is_digit c = (let n = (of_char c :: nat) in 48 \<le> n \<and> n \<le> 57)"

definition is_word :: "char \<Rightarrow> bool" where
  "is_word c = (let n = (of_char c :: nat) in
      (48 \<le> n \<and> n \<le> 57) \<or> (65 \<le> n \<and> n \<le> 90) \<or> (97 \<le> n \<and> n \<le> 122) \<or> n = 95)"

datatype char_class =
    Lit char          \<comment> \<open>the character itself\<close>
  | WordChar          \<comment> \<open>\<^verbatim>\<open>\w\<close>\<close>
  | Digit             \<comment> \<open>\<^verbatim>\<open>\d\<close>\<close>
  | AnyChar           \<comment> \<open>\<^verbatim>\<open>.\<close>: any character but a line terminator\<close>
  | CharRange char char   \<comment> \<open>\<^verbatim>\<open>a-b\<close> inside brackets\<close>

fun class_matches :: "char_class \<Rightarrow> char \<Rightarrow> bool" where
  "class_matches (Lit a) c = (c = a)"
| "class_matches WordChar c = is_word c"
| "class_matches Digit c = is_digit c"
| "class_matches AnyChar c = (c \<noteq> CHR 0x0A \<and> c \<noteq> CHR 0x0D)"
| "class_matches (CharRange a b) c =
     ((of_char a :: nat) \<le> of_char c \<and> (of_char c :: nat) \<le> of_char b)"

text \<open>A bracket expression \<^verbatim>\<open>[...]\<close> is the list of its alternatives.\<close>

definition in_bracket :: "char_class list \<Rightarrow> char \<Rightarrow> bool" where
  "in_bracket cs c = list_ex (\<lambda>k. class_matches k c) cs"

datatype regex =
    Atom "char_class list"   \<comment> \<open>one character of the class\<close>
  | Star "char_class list"   \<comment> \<open>\<^verbatim>\<open>[...]*\<close>, greedy\<close>
  | Plus "char_class list"   \<comment> \<open>\<^verbatim>\<open>[...]+\<close>, greedy\<close>
  | Seq regex regex
  | Group nat regex          \<comment> \<open>\<^verbatim>\<open>(...)\<close>, with its number\<close>
  | NonCapture regex         \<comment> \<open>\<^verbatim>\<open>(?:...)\<close>\<close>

type_synonym captures = "nat \<rightharpoonup> string"

text \<open>
  The texts left after \<^verbatim>\<open>[...]*\<close> has matched at the start of \<open>s\<close>, the longest match first.
\<close>

fun star_rests :: "char_class list \<Rightarrow> string \<Rightarrow> string list" where
  "star_rests cs [] = [[]]"
| "star_rests cs (c # s) = (if in_bracket cs c then star_rests cs s @ [c # s] else [c # s])"

text \<open>
  All the ways a pattern matches at the start of a text, in the order backtracking tries them:
  each is the text left and the groups captured so far.
\<close>

fun ms :: "regex \<Rightarrow> string \<times> captures \<Rightarrow> (string \<times> captures) list" where
  "ms (Atom cs) (s, caps) =
     (case s of [] \<Rightarrow> [] | c # rest \<Rightarrow> if in_bracket cs c then [(rest, caps)] else [])"
| "ms (Star cs) (s, caps) = map (\<lambda>rest. (rest, caps)) (star_rests cs s)"
| "ms (Plus cs) (s, caps) =
     (case s of [] \<Rightarrow> []
      | c # rest \<Rightarrow>
          if in_bracket cs c then map (\<lambda>rest'. (rest', caps)) (star_rests cs rest) else [])"
| "ms (Seq r1 r2) st = concat (map (ms r2) (ms r1 st))"
| "ms (Group n r) (s, caps) =
     map (\<lambda>(rest, caps'). (rest, caps'(n \<mapsto> take (length s - length rest) s)))
       (ms r (s, caps))"
| "ms (NonCapture r) st = ms r st"

text \<open>\<^verbatim>\<open>std::regex_match\<close>: the first way to match that consumes the whole text.\<close>

definition regex_match :: "regex \<Rightarrow> string \<Rightarrow> captures option" where
  "regex_match r s = map_option snd (find (\<lambda>(rest, caps). rest = []) (ms r (s, Map.empty)))"

text \<open>\<^verbatim>\<open>std::regex_search\<close>: the first way to match at the first position that has one.\<close>

fun regex_search :: "regex \<Rightarrow> string \<Rightarrow> captures option" where
  "regex_search r [] =
     (case ms r ([], Map.empty) of [] \<Rightarrow> None | (rest, caps) # _ \<Rightarrow> Some caps)"
| "regex_search r (c # s) =
     (case ms r (c # s, Map.empty) of
        [] \<Rightarrow> regex_search r s
      | (rest, caps) # _ \<Rightarrow> Some caps)"

text \<open>
  \<^verbatim>\<open>m[i]\<close> converted to a string (the empty string for a group that took no part), and
  \<^verbatim>\<open>m.size()\<close> after a match: the number of groups of the pattern plus one.
\<close>

definition sub_match :: "captures \<Rightarrow> nat \<Rightarrow> string" where
  "sub_match m i = (case m i of None \<Rightarrow> [] | Some v \<Rightarrow> v)"

fun mark_count :: "regex \<Rightarrow> nat" where
  "mark_count (Seq r1 r2) = mark_count r1 + mark_count r2"
| "mark_count (Group n r) = Suc (mark_count r)"
| "mark_count (NonCapture r) = mark_count r"
| "mark_count _ = 0"

definition match_size :: "regex \<Rightarrow> nat" where
  "match_size r = mark_count r + 1"

text \<open>Line 222: \<^verbatim>\<open>(?:([\w ]+) ([\w.]+) .*\[.* ([\d.]+)\])\<close>.\<close>

definition ver_output_regex :: regex where
  "ver_output_regex =
     NonCapture
       (Seq (Group 1 (Plus [WordChar, Lit CHR '' '']))
       (Seq (Atom [Lit CHR '' ''])
       (Seq (Group 2 (Plus [WordChar, Lit CHR ''.'']))
       (Seq (Atom [Lit CHR '' ''])
       (Seq (Star [AnyChar])
       (Seq (Atom [Lit CHR ''[''])
       (Seq (Star [AnyChar])
       (Seq (Atom [Lit CHR '' ''])
       (Seq (Group 3 (Plus [Digit, Lit CHR ''.'']))
            (Atom [Lit CHR '']'']))))))))))"

text \<open>Line 300: \<^verbatim>\<open>([0-9]+\.[0-9]+\.[0-9]+)-.*\<close>.\<close>

definition three_numbers :: regex where
  "three_numbers =
     Seq (Plus [CharRange CHR ''0'' CHR ''9''])
    (Seq (Atom [Lit CHR ''.''])
    (Seq (Plus [CharRange CHR ''0'' CHR ''9''])
    (Seq (Atom [Lit CHR ''.''])
         (Plus [CharRange CHR ''0'' CHR ''9'']))))"

definition re :: regex where
  "re = Seq (Group 1 three_numbers) (Seq (Atom [Lit CHR ''-'']) (Star [AnyChar]))"

subsection \<open>Version detection: \<^verbatim>\<open>windows_version\<close>, \<^verbatim>\<open>macos_version\<close>, \<^verbatim>\<open>linux_version\<close>\<close>

text \<open>
  What the three functions read from their surroundings: the environment variables, the
  constants \<^verbatim>\<open>on_win\<close>, \<^verbatim>\<open>on_mac\<close> and \<^verbatim>\<open>on_linux\<close> (declared in another file of the repository
  and fixed when the program is built, so they are parameters here), and the answer of
  \<^verbatim>\<open>reproc::run\<close> to a command line: the message of the error code if the run failed, and the
  captured standard output.
\<close>

record host =
  environment :: "string \<rightharpoonup> string"
  on_win :: bool
  on_mac :: bool
  on_linux :: bool
  reproc_run :: "string list \<Rightarrow> string option \<times> string"

text \<open>
  The result of a version function: the returned string (or the failure of an unchecked
  vector access), the log events, and the command lines handed to \<^verbatim>\<open>reproc::run\<close>.
\<close>

record version_result =
  version :: "exn + string"
  logs :: "log_event list"
  spawned :: "string list list"

text \<open>
  Lines 219 to 239: the parsing of the output of \<^verbatim>\<open>ver\<close>, with its log event.
\<close>

definition parse_ver_output :: "string \<Rightarrow> (exn + string) \<times> log_event list" where
  "parse_ver_output out =
     (let xout = strip out in
      case regex_match ver_output_regex xout of
        Some rmatch \<Rightarrow>
          (let full_version = sub_match rmatch 3;
               version_els = split full_version CHR ''.''
           in case at_index version_els 0 of
                Inl e \<Rightarrow> (Inl e, [])
              | Inr el0 \<Rightarrow>
                 (case at_index version_els 1 of
                    Inl e \<Rightarrow> (Inl e, [])
                  | Inr el1 \<Rightarrow>
                     (case at_index version_els 2 of
                        Inl e \<Rightarrow> (Inl e, [])
                      | Inr el2 \<Rightarrow>
                         (let norm_version = concat_strings [el0, ''.'', el1, ''.'', el2]
                          in (Inr norm_version,
                              [(LOG_DEBUG, ''Windows version found: '' @ norm_version)])))))
      | None \<Rightarrow> (Inr ''0.0.0'', [(LOG_DEBUG, ''Windows version not found'')]))"

definition windows_version :: "host \<Rightarrow> version_result" where
  "windows_version h =
     (let log0 = [(LOG_DEBUG, ''Loading Windows virtual package'')] in
      if env_get (environment h) ''CONDA_OVERRIDE_WIN'' \<noteq> []
      then \<lparr>version = Inr (env_get (environment h) ''CONDA_OVERRIDE_WIN''),
            logs = log0, spawned = []\<rparr>
      else if \<not> on_win h
      then \<lparr>version = Inr [], logs = log0, spawned = []\<rparr>
      else
        (let args = [env_get (environment h) ''COMSPEC'', ''/c'', ''ver''];
             ec = fst (reproc_run h args);
             out = snd (reproc_run h args)
         in case ec of
              Some message \<Rightarrow>
                \<lparr>version = Inr [],
                 logs = log0 @
                   [(LOG_WARNING,
                     ''Could not find Windows version by calling '' @ [CHR 0x27] @ ''ver'' @
                     [CHR 0x27, CHR 0x0A] @
                     ''Please file a bug report.'' @ [CHR 0x0A] @ ''Error: '' @ message)],
                 spawned = [args]\<rparr>
            | None \<Rightarrow>
                \<lparr>version = fst (parse_ver_output out),
                 logs = log0 @ snd (parse_ver_output out),
                 spawned = [args]\<rparr>))"

definition macos_version :: "host \<Rightarrow> version_result" where
  "macos_version h =
     (let log0 = [(LOG_DEBUG, ''Loading macos virtual package'')] in
      if env_get (environment h) ''CONDA_OVERRIDE_OSX'' \<noteq> []
      then \<lparr>version = Inr (env_get (environment h) ''CONDA_OVERRIDE_OSX''),
            logs = log0, spawned = []\<rparr>
      else if \<not> on_mac h
      then \<lparr>version = Inr [], logs = log0, spawned = []\<rparr>
      else
        (let args = [''sw_vers'', ''-productVersion''];
             ec = fst (reproc_run h args);
             out = snd (reproc_run h args)
         in case ec of
              Some message \<Rightarrow>
                \<lparr>version = Inr [],
                 logs = log0 @
                   [(LOG_WARNING,
                     ''Could not find macOS version by calling '' @ [CHR 0x27] @
                     ''sw_vers -productVersion'' @ [CHR 0x27, CHR 0x0A] @
                     ''Please file a bug report.'' @ [CHR 0x0A] @
                     ''Error: '' @ message)],
                 spawned = [args]\<rparr>
            | None \<Rightarrow>
                (let version = strip out
                 in \<lparr>version = Inr version,
                     logs = log0 @ [(LOG_DEBUG, ''macos version found: '' @ version)],
                     spawned = [args]\<rparr>)))"

definition linux_version :: "host \<Rightarrow> version_result" where
  "linux_version h =
     (let log0 = [(LOG_DEBUG, ''Loading linux virtual package'')] in
      if env_get (environment h) ''CONDA_OVERRIDE_LINUX'' \<noteq> []
      then \<lparr>version = Inr (env_get (environment h) ''CONDA_OVERRIDE_LINUX''),
            logs = log0, spawned = []\<rparr>
      else if \<not> on_linux h
      then \<lparr>version = Inr [], logs = log0, spawned = []\<rparr>
      else
        (let args = [''uname'', ''-r''];
             ec = fst (reproc_run h args);
             out = snd (reproc_run h args)
         in case ec of
              Some message \<Rightarrow>
                \<lparr>version = Inr [],
                 logs = log0 @
                   [(LOG_DEBUG,
                     ''Could not find linux version by calling '' @ [CHR 0x27] @ ''uname -r'' @
                     [CHR 0x27] @ '' (skipped)'')],
                 spawned = [args]\<rparr>
            | None \<Rightarrow>
                (case regex_search re out of
                   Some m \<Rightarrow>
                     if match_size re = 2
                     then \<lparr>version = Inr (sub_match m 1),
                           logs = log0 @
                             [(LOG_DEBUG, ''linux version found: '' @ sub_match m 1)],
                           spawned = [args]\<rparr>
                     else \<lparr>version = Inr [], logs = log0, spawned = [args]\<rparr>
                 | None \<Rightarrow> \<lparr>version = Inr [], logs = log0, spawned = [args]\<rparr>)))"

text \<open>
  Hosts for concrete runs: a Windows host and a Linux host without override variables, whose
  version command prints the given text.
\<close>

definition windows_host :: "string \<Rightarrow> host" where
  "windows_host out =
     \<lparr>environment = [''COMSPEC'' \<mapsto> ''cmd.exe''], on_win = True, on_mac = False,
      on_linux = False, reproc_run = (\<lambda>args. (None, out))\<rparr>"

definition linux_host :: "string \<Rightarrow> host" where
  "linux_host out =
     \<lparr>environment = Map.empty, on_win = False, on_mac = False, on_linux = True,
      reproc_run = (\<lambda>args. (None, out))\<rparr>"

text \<open>A host on which every subprocess fails to start and the three overrides are set.\<close>

definition override_host :: host where
  "override_host =
     \<lparr>environment = [''CONDA_OVERRIDE_WIN'' \<mapsto> ''10.0.19041'',
                     ''CONDA_OVERRIDE_OSX'' \<mapsto> ''13.4'',
                     ''CONDA_OVERRIDE_LINUX'' \<mapsto> ''5.15.0''],
      on_win = False, on_mac = False, on_linux = True,
      reproc_run = (\<lambda>args. (Some ''No such file or directory'', []))\<rparr>"

subsection \<open>What the patterns mean\<close>

text \<open>
  The texts a pattern matches as a whole, without reference to backtracking: the reading of a
  pattern that the spec's sentences about "matching" and "containing" rely on.
\<close>

fun matches :: "regex \<Rightarrow> string \<Rightarrow> bool" where
  "matches (Atom cs) w = (\<exists>c. w = [c] \<and> in_bracket cs c)"
| "matches (Star cs) w = list_all (in_bracket cs) w"
| "matches (Plus cs) w = (w \<noteq> [] \<and> list_all (in_bracket cs) w)"
| "matches (Seq r1 r2) w = (\<exists>u v. w = u @ v \<and> matches r1 u \<and> matches r2 v)"
| "matches (Group n r) w = matches r w"
| "matches (NonCapture r) w = matches r w"

text \<open>
  The spec's \<^verbatim>\<open><int>.<int>.<int>\<close>: three non-empty runs of decimal digits with a dot between
  them.
\<close>

definition is_int :: "string \<Rightarrow> bool" where
  "is_int s = (s \<noteq> [] \<and> list_all is_digit s)"

definition is_x_y_z :: "string \<Rightarrow> bool" where
  "is_x_y_z v = (\<exists>a b c. is_int a \<and> is_int b \<and> is_int c \<and> v = a @ ''.'' @ b @ ''.'' @ c)"

subsection \<open>\<^verbatim>\<open>std::stoull\<close>\<close>

text \<open>
  \<^verbatim>\<open>std::stoull(str)\<close> of the C++ standard library, in base 10: it skips leading white space,
  accepts one sign, reads the longest run of decimal digits and ignores what follows. It throws
  \<^verbatim>\<open>std::invalid_argument\<close> when there is no digit to read and \<^verbatim>\<open>std::out_of_range\<close> when the
  number does not fit 64 bits; after a minus sign the number is negated in 64-bit unsigned
  arithmetic.
\<close>

definition digit_value :: "char \<Rightarrow> int" where
  "digit_value c = of_char c - 48"

definition decimal :: "string \<Rightarrow> int" where
  "decimal ds = foldl (\<lambda>n c. 10 * n + digit_value c) 0 ds"

definition stoull :: "string \<Rightarrow> exn + 64 word" where
  "stoull str =
     (let s1 = dropWhile is_space str;
          negative = (case s1 of [] \<Rightarrow> False | c # _ \<Rightarrow> c = CHR ''-'');
          s2 = (case s1 of [] \<Rightarrow> []
                | c # rest \<Rightarrow> if c = CHR ''-'' \<or> c = CHR ''+'' then rest else s1);
          ds = takeWhile is_digit s2
      in if ds = [] then Inl (InvalidArgument ''invalid stoull argument'')
         else if 2 ^ 64 \<le> decimal ds then Inl (OutOfRange ''stoull argument out of range'')
         else Inr (if negative then - word_of_int (decimal ds) else word_of_int (decimal ds)))"

subsection \<open>\<^verbatim>\<open>enable_long_paths_support\<close>\<close>

text \<open>
  What \<^verbatim>\<open>enable_long_paths_support\<close> finds on the host: what \<^verbatim>\<open>windows_version\<close> reads, whether
  the registry key can be opened for a query, the value \<^verbatim>\<open>LongPathsEnabled\<close> (\<open>None\<close> when it
  is absent), whether the key can be opened for writing, the answer of \<^verbatim>\<open>IsUserAnAdmin\<close>, the
  answer of the user to \<^verbatim>\<open>Console::prompt\<close>, what the elevated launch does, and the value that
  the registry holds once the elevated \<^verbatim>\<open>reg.exe\<close> has run. The \<^verbatim>\<open>winreg\<close> calls throw
  \<^verbatim>\<open>winreg::RegException\<close> when they fail.
\<close>

record long_paths_host =
  version_host :: host
  key_opens_for_query :: bool
  LongPathsEnabled :: "32 word option"
  key_opens_for_write :: bool
  IsUserAnAdmin :: bool
  prompt_answer :: bool
  elevation :: elevation_os
  LongPathsEnabled_after_elevation :: "32 word option"

datatype registry_access =
    RegOpenForQuery
  | RegGetDwordValue
  | RegOpenForWrite
  | RegSetDwordValue "32 word"

text \<open>
  The result of \<^verbatim>\<open>enable_long_paths_support\<close>: the returned boolean or the exception that
  leaves the function, and what it did on the way, each kind of effect in its order.
\<close>

record long_paths_result =
  result :: "exn + bool"
  events :: "log_event list"
  registry :: "registry_access list"
  prompts :: "string list"
  printed :: "string list"
  elevated_calls :: "os_call list"
  subprocesses :: "string list list"

definition quiet :: "exn + bool \<Rightarrow> long_paths_result" where
  "quiet r = \<lparr>result = r, events = [], registry = [], prompts = [], printed = [],
              elevated_calls = [], subprocesses = []\<rparr>"

text \<open>The condition of lines 129 and 130, evaluated from left to right as \<^verbatim>\<open>&&\<close> does.\<close>

definition version_supported :: "string list \<Rightarrow> exn + bool" where
  "version_supported splitted =
     (if \<not> 3 \<le> length splitted then Inr False
      else case at_index splitted 0 of
             Inl e \<Rightarrow> Inl e
           | Inr major_text \<Rightarrow>
              (case stoull major_text of
                 Inl e \<Rightarrow> Inl e
               | Inr major \<Rightarrow>
                   if \<not> 10 \<le> major then Inr False
                   else (case at_index splitted 2 of
                           Inl e \<Rightarrow> Inl e
                         | Inr build_text \<Rightarrow>
                            (case stoull build_text of
                               Inl e \<Rightarrow> Inl e
                             | Inr build \<Rightarrow> Inr (14352 \<le> build)))))"

text \<open>Lines 183 to 191: the value is read again, outside of any \<^verbatim>\<open>try\<close>.\<close>

definition read_again :: "32 word option \<Rightarrow> long_paths_result \<Rightarrow> long_paths_result" where
  "read_again now r =
     (let r1 = r\<lparr>registry := registry r @ [RegGetDwordValue]\<rparr> in
      case now of
        None \<Rightarrow> r1\<lparr>result := Inl RegException\<rparr>
      | Some prev_value \<Rightarrow>
          if prev_value = 1
          then r1\<lparr>result := Inr True,
                  printed := printed r1 @ [''Windows long-path support enabled.'']\<rparr>
          else r1\<lparr>result := Inr False,
                  events := events r1 @
                    [(LOG_WARNING, ''Changing registry value did not succeed.'')]\<rparr>)"

definition reg_add_arguments :: string where
  "reg_add_arguments =
     ''ADD HKEY_LOCAL_MACHINE'' @ [CHR 0x5C] @ ''SYSTEM'' @ [CHR 0x5C] @ ''CurrentControlSet'' @
     [CHR 0x5C] @ ''Control'' @ [CHR 0x5C] @
     ''FileSystem /v LongPathsEnabled /d 1 /t REG_DWORD /f''"

text \<open>Lines 138 to 191: the part of the function that works on the registry.\<close>

definition set_long_paths_key :: "long_paths_host \<Rightarrow> bool \<Rightarrow> long_paths_result" where
  "set_long_paths_key w force =
     (if \<not> key_opens_for_query w
      then (quiet (Inl RegException))\<lparr>registry := [RegOpenForQuery]\<rparr>
      else
        case LongPathsEnabled w of
          None \<Rightarrow>
            (quiet (Inr False))
              \<lparr>events := [(LOG_INFO, ''No LongPathsEnabled key detected.'')],
               registry := [RegOpenForQuery, RegGetDwordValue]\<rparr>
        | Some prev_value \<Rightarrow>
            if prev_value = 1
            then (quiet (Inr True))
                   \<lparr>registry := [RegOpenForQuery, RegGetDwordValue],
                    printed := [''Windows long-path support already enabled.'']\<rparr>
            else if force \<or> IsUserAnAdmin w
            then
              (if \<not> key_opens_for_write w
               then (quiet (Inl RegException))
                      \<lparr>registry := [RegOpenForQuery, RegGetDwordValue, RegOpenForWrite]\<rparr>
               else read_again (Some 1)
                      ((quiet (Inr False))
                         \<lparr>registry := [RegOpenForQuery, RegGetDwordValue, RegOpenForWrite,
                                       RegSetDwordValue 1]\<rparr>))
            else
              (let question = ''Enter admin mode to enable long paths support?'' in
               if prompt_answer w
               then
                 (let launched = run_as_admin (elevation w) ''reg.exe'' reg_add_arguments in
                  if \<not> returned launched
                  then (quiet (Inr False))
                         \<lparr>events := admin_logs launched,
                          registry := [RegOpenForQuery, RegGetDwordValue],
                          prompts := [question],
                          elevated_calls := admin_calls launched\<rparr>
                  else read_again (LongPathsEnabled_after_elevation w)
                         ((quiet (Inr False))
                            \<lparr>events := admin_logs launched,
                             registry := [RegOpenForQuery, RegGetDwordValue],
                             prompts := [question],
                             elevated_calls := admin_calls launched\<rparr>))
               else (quiet (Inr False))
                      \<lparr>events := [(LOG_WARNING, ''Did not enable long paths support.'')],
                       registry := [RegOpenForQuery, RegGetDwordValue],
                       prompts := [question]\<rparr>))"

definition version_warning :: log_event where
  "version_warning =
     (LOG_WARNING,
      ''Not setting long path registry key; Windows version must be at least 10 '' @
      ''with the fall 2016 '' @ [CHR 0x22] @ ''Anniversary update'' @ [CHR 0x22] @ '' or newer.'')"

definition enable_long_paths_support :: "long_paths_host \<Rightarrow> bool \<Rightarrow> long_paths_result" where
  "enable_long_paths_support w force =
     (let v = windows_version (version_host w) in
      case version v of
        Inl e \<Rightarrow> (quiet (Inl e))\<lparr>events := logs v, subprocesses := spawned v\<rparr>
      | Inr win_ver \<Rightarrow>
         (let splitted = split win_ver CHR ''.'' in
          case version_supported splitted of
            Inl e \<Rightarrow> (quiet (Inl e))\<lparr>events := logs v, subprocesses := spawned v\<rparr>
          | Inr supported \<Rightarrow>
              if \<not> supported
              then (quiet (Inr False))
                     \<lparr>events := logs v @ [version_warning], subprocesses := spawned v\<rparr>
              else
                (let r = set_long_paths_key w force
                 in r\<lparr>events := logs v @ events r, subprocesses := spawned v\<rparr>)))"

text \<open>
  A Windows host whose version is given by the override variable \<^verbatim>\<open>CONDA_OVERRIDE_WIN\<close>, with
  long paths disabled in the registry.
\<close>

definition host_with_version :: "string \<Rightarrow> long_paths_host" where
  "host_with_version win_ver =
     \<lparr>version_host =
        \<lparr>environment = [''CONDA_OVERRIDE_WIN'' \<mapsto> win_ver], on_win = True, on_mac = False,
         on_linux = False, reproc_run = (\<lambda>args. (None, []))\<rparr>,
      key_opens_for_query = True, LongPathsEnabled = Some 0, key_opens_for_write = True,
      IsUserAnAdmin = True, prompt_answer = True,
      elevation = \<lparr>shell_execute_ok = True, child_exit_code = 0\<rparr>,
      LongPathsEnabled_after_elevation = Some 1\<rparr>"

subsection \<open>\<^verbatim>\<open>to_utf8\<close>\<close>

text \<open>
  What the operating system answers to \<^verbatim>\<open>to_utf8\<close>: the return value of
  \<^verbatim>\<open>WideCharToMultiByte\<close> when it is asked for the size that the conversion needs (zero or less
  on failure); the bytes it stores and its return value when it converts into a buffer of that
  size; the code that \<^verbatim>\<open>GetLastError\<close> reports; and the text that
  \<^verbatim>\<open>std::system_category().message\<close> gives for a code. A wide character is a 16-bit word.
\<close>

record utf8_os =
  required_size :: "16 word list \<Rightarrow> int"
  converted :: "16 word list \<Rightarrow> nat \<Rightarrow> string \<times> int"
  GetLastError :: "32 word"
  system_message :: "int \<Rightarrow> string"

datatype utf8_call =
    QuerySize "16 word list"      \<comment> \<open>\<^verbatim>\<open>WideCharToMultiByte\<close> with no output buffer\<close>
  | Convert "16 word list" nat    \<comment> \<open>\<^verbatim>\<open>WideCharToMultiByte\<close> into a buffer of the given size\<close>

record utf8_result =
  utf8 :: "exn + string"
  utf8_events :: "log_event list"
  utf8_calls :: "utf8_call list"

definition INT_MAX :: int where
  "INT_MAX = 2147483647"

text \<open>
  \<^verbatim>\<open>to_utf8(w, s)\<close>, lines 454 to 483; the list \<open>w\<close> holds the \<open>s\<close> wide characters. A failed
  \<^verbatim>\<open>assert\<close> is a failure of its own.
\<close>

definition to_utf8 :: "utf8_os \<Rightarrow> 16 word list \<Rightarrow> utf8_result" where
  "to_utf8 os w =
     (let s = length w in
      if s \<noteq> 0
      then
        if \<not> int s \<le> INT_MAX
        then \<lparr>utf8 = Inl AssertionFailed, utf8_events = [], utf8_calls = []\<rparr>
        else
          (let size = required_size os w in
           if size \<le> 0
           then
             (let last_error = GetLastError os in
              \<lparr>utf8 = Inl (RuntimeError ''Failed to convert string to UTF-8''),
               utf8_events =
                 [(LOG_ERROR,
                   ''Failed to convert string to UTF-8 '' @ system_message os (sint last_error))],
               utf8_calls = [QuerySize w]\<rparr>)
           else
             (let stored = fst (converted os w (nat size));
                  res_size = snd (converted os w (nat size));
                  output = take (nat size)
                    (stored @ replicate (nat size - length stored) (CHR 0x00))
              in if res_size \<noteq> size
                 then \<lparr>utf8 = Inl AssertionFailed, utf8_events = [],
                       utf8_calls = [QuerySize w, Convert w (nat size)]\<rparr>
                 else \<lparr>utf8 = Inr output, utf8_events = [],
                       utf8_calls = [QuerySize w, Convert w (nat size)]\<rparr>))
      else \<lparr>utf8 = Inr [], utf8_events = [], utf8_calls = []\<rparr>)"

text \<open>The text of an exception (\<^verbatim>\<open>what()\<close>), and whether a text occurs inside another.\<close>

fun what :: "exn \<Rightarrow> string" where
  "what (RuntimeError text) = text"
| "what (InvalidArgument text) = text"
| "what (OutOfRange text) = text"
| "what _ = []"

definition occurs_in :: "string \<Rightarrow> string \<Rightarrow> bool" where
  "occurs_in t s = list_ex (\<lambda>i. take (length t) (drop i s) = t) [0..<Suc (length s)]"

text \<open>
  An operating system on which the conversion fails with error 87.
\<close>

definition failing_conversion :: utf8_os where
  "failing_conversion =
     \<lparr>required_size = (\<lambda>w. 0), converted = (\<lambda>w n. ([], 0)), GetLastError = 87,
      system_message = (\<lambda>code. ''The parameter is incorrect.'')\<rparr>"

subsection \<open>\<^verbatim>\<open>get_self_exe_path\<close> (Windows)\<close>

text \<open>
  A \<^verbatim>\<open>std::wstring\<close>: its characters (\<^verbatim>\<open>size()\<close> is their number) and its capacity.
  \<^verbatim>\<open>reserve\<close> changes the capacity only.
\<close>

record wstring_buffer =
  chars :: "16 word list"
  capacity :: nat

definition reserve :: "wstring_buffer \<Rightarrow> nat \<Rightarrow> wstring_buffer" where
  "reserve buffer n = buffer\<lparr>capacity := max (capacity buffer) n\<rparr>"

definition MAX_PATH :: nat where
  "MAX_PATH = 260"

text \<open>
  \<^verbatim>\<open>GetModuleFileNameW(NULL, p, nSize)\<close> as the operating system documents it, for the path of
  the executable (\<open>None\<close> when the system cannot report it): the characters it stores at \<open>p\<close>
  and its return value. A path shorter than \<open>nSize\<close> is stored with its terminating zero and
  its length is returned; a longer one is cut to \<open>nSize\<close> characters, terminating zero included,
  and \<open>nSize\<close> is returned.
\<close>

definition GetModuleFileNameW :: "16 word list option \<Rightarrow> nat \<Rightarrow> 16 word list \<times> 32 word" where
  "GetModuleFileNameW exe nSize =
     (case exe of
        None \<Rightarrow> ([], 0)
      | Some path \<Rightarrow>
          if nSize = 0 then ([], 0)
          else if length path < nSize then (path @ [0], word_of_nat (length path))
          else (take (nSize - 1) path @ [0], word_of_nat nSize))"

text \<open>The system writes through the pointer: the first characters of the buffer change.\<close>

definition store :: "wstring_buffer \<Rightarrow> 16 word list \<Rightarrow> wstring_buffer" where
  "store buffer written =
     buffer\<lparr>chars := take (length (chars buffer))
                        (written @ drop (length written) (chars buffer))\<rparr>"

text \<open>
  Lines 48 to 53, the \<^verbatim>\<open>do ... while\<close> loop: \<open>new_size\<close> is a \<^verbatim>\<open>DWORD\<close>, and the size handed to
  the system is \<^verbatim>\<open>buffer.size()\<close>. The loop may run forever, so its result is an option.
\<close>

partial_function (option) grow ::
  "(nat \<Rightarrow> 16 word list \<times> 32 word) \<Rightarrow> wstring_buffer \<Rightarrow> 32 word
     \<Rightarrow> (wstring_buffer \<times> 32 word) option" where
  "grow os buffer new_size =
     (let new_size' = new_size * 2;
          buffer1 = reserve buffer (unat new_size');
          answer = os (length (chars buffer1));
          buffer2 = store buffer1 (fst answer);
          size = snd answer
      in if new_size' = size then grow os buffer2 new_size' else Some (buffer2, size))"

declare grow.simps [code]

text \<open>
  \<^verbatim>\<open>buffer.find(L'\0')\<close> is the position of the first zero, or \<^verbatim>\<open>npos\<close>, for which
  \<^verbatim>\<open>resize\<close> throws \<^verbatim>\<open>std::length_error\<close>.
\<close>

definition trim :: "wstring_buffer \<Rightarrow> exn + 16 word list" where
  "trim buffer =
     (if 0 \<in> set (chars buffer) then Inr (takeWhile (\<lambda>c. c \<noteq> 0) (chars buffer))
      else Inl LengthError)"

text \<open>
  Lines 38 to 56. \<^verbatim>\<open>fs::absolute\<close> is a parameter. The result is \<open>None\<close> when the loop does not
  end.
\<close>

definition get_self_exe_path ::
  "(nat \<Rightarrow> 16 word list \<times> 32 word) \<Rightarrow> (16 word list \<Rightarrow> 'path) \<Rightarrow> (exn + 'path) option" where
  "get_self_exe_path os absolute =
     (let buffer0 = \<lparr>chars = replicate MAX_PATH 0, capacity = MAX_PATH\<rparr>;
          answer = os (length (chars buffer0));
          buffer1 = store buffer0 (fst answer);
          size = snd answer
      in if size = 0
         then Some (Inl (RuntimeError ''Could find location of the micromamba executable!''))
         else
           (case (if unat size = length (chars buffer1) then grow os buffer1 size
                  else Some (buffer1, size)) of
              None \<Rightarrow> None
            | Some (buffer, size') \<Rightarrow>
               (case trim buffer of
                  Inl e \<Rightarrow> Some (Inl e)
                | Inr path \<Rightarrow> Some (Inr (absolute path)))))"

section \<open>Theorems\<close>

subsection \<open>Console code pages\<close>

lemma init_console_fields:
  "init_console_initialized (init_console s)"
  "init_console_cp (init_console s) = sint (console_cp s)"
  "init_console_output_cp (init_console s) = sint (console_output_cp s)"
  "console_cp (init_console s) = CP_UTF8"
  "console_output_cp (init_console s) = CP_UTF8"
  by (simp_all add: init_console_def Let_def)

lemma uint_int_uint: "(word_of_int (sint (w :: 32 word)) :: 32 word) = w"
  by simp

lemma console_step_not_init:
  "\<not> is_init op \<Longrightarrow> \<not> init_console_initialized s \<Longrightarrow>
   \<not> init_console_initialized (console_step s op)"
  by (cases op) (simp_all add: reset_console_def)

lemma console_run_not_init:
  "list_all (\<lambda>op. \<not> is_init op) ops \<Longrightarrow> \<not> init_console_initialized s \<Longrightarrow>
   \<not> init_console_initialized (console_run s ops)"
proof (induction ops arbitrary: s)
  case Nil
  then show ?case by simp
next
  case (Cons op ops)
  from Cons.prems have "\<not> init_console_initialized (console_step s op)"
    by (simp add: console_step_not_init)
  with Cons show ?case by simp
qed

lemma console_step_keeps_saved:
  "\<not> is_init op \<Longrightarrow> init_console_initialized s \<Longrightarrow>
   init_console_initialized (console_step s op) \<and>
   init_console_cp (console_step s op) = init_console_cp s \<and>
   init_console_output_cp (console_step s op) = init_console_output_cp s"
  by (cases op) (simp_all add: reset_console_def Let_def)

lemma console_run_keeps_saved:
  "list_all (\<lambda>op. \<not> is_init op) ops \<Longrightarrow> init_console_initialized s \<Longrightarrow>
   init_console_initialized (console_run s ops) \<and>
   init_console_cp (console_run s ops) = init_console_cp s \<and>
   init_console_output_cp (console_run s ops) = init_console_output_cp s"
proof (induction ops arbitrary: s)
  case Nil
  then show ?case by simp
next
  case (Cons op ops)
  from Cons.prems have step: "init_console_initialized (console_step s op)"
    "init_console_cp (console_step s op) = init_console_cp s"
    "init_console_output_cp (console_step s op) = init_console_output_cp s"
    using console_step_keeps_saved [of op s] by simp_all
  from Cons.prems have "list_all (\<lambda>op. \<not> is_init op) ops" by simp
  from Cons.IH [OF this step(1)] step show ?case by simp
qed

text \<open>
  Claim C8. As long as \<^verbatim>\<open>init_console\<close> has not been called since the start of the process
  (whatever else has happened to the console, earlier calls of \<^verbatim>\<open>reset_console\<close> included),
  \<^verbatim>\<open>reset_console\<close> changes nothing at all. Once \<^verbatim>\<open>init_console\<close> has run in a state \<open>s\<close>,
  \<^verbatim>\<open>reset_console\<close> sets the input and the output code page back to what they were in \<open>s\<close>, when
  \<^verbatim>\<open>init_console\<close> read them before it forced UTF-8, whatever other code did to the code pages
  in between.
\<close>

theorem reset_console_restores:
  "(list_all (\<lambda>op. \<not> is_init op) ops \<longrightarrow>
      reset_console (console_run (process_start cp ocp b) ops)
        = console_run (process_start cp ocp b) ops) \<and>
   (list_all (\<lambda>op. \<not> is_init op) later \<longrightarrow>
      console_cp (reset_console (console_run (init_console s) later)) = console_cp s \<and>
      console_output_cp (reset_console (console_run (init_console s) later))
        = console_output_cp s)"
proof (intro conjI impI)
  assume "list_all (\<lambda>op. \<not> is_init op) ops"
  then have "\<not> init_console_initialized (console_run (process_start cp ocp b) ops)"
    by (rule console_run_not_init) (simp add: process_start_def)
  then show "reset_console (console_run (process_start cp ocp b) ops)
      = console_run (process_start cp ocp b) ops"
    by (simp add: reset_console_def)
next
  assume later: "list_all (\<lambda>op. \<not> is_init op) later"
  let ?t = "console_run (init_console s) later"
  have saved: "init_console_initialized ?t" "init_console_cp ?t = sint (console_cp s)"
    "init_console_output_cp ?t = sint (console_output_cp s)"
    using console_run_keeps_saved [OF later, of "init_console s"]
    by (simp_all add: init_console_fields)
  from saved show "console_cp (reset_console ?t) = console_cp s"
    by (simp add: reset_console_def Let_def)
  from saved show "console_output_cp (reset_console ?t) = console_output_cp s"
    by (simp add: reset_console_def Let_def)
qed

theorem reset_console_restores_witness:
  "reset_console (console_run (process_start 850 437 False) [OtherSetConsoleCP 1252, ResetConsole])
     = console_run (process_start 850 437 False) [OtherSetConsoleCP 1252, ResetConsole] \<and>
   console_cp (reset_console (console_run (init_console (process_start 850 437 False))
       [OtherSetConsoleOutputCP 1252])) = 850 \<and>
   console_output_cp (reset_console (console_run (init_console (process_start 850 437 False))
       [OtherSetConsoleOutputCP 1252])) = 437"
  using reset_console_restores [of "[OtherSetConsoleCP 1252, ResetConsole]" 850 437 False
      "[OtherSetConsoleOutputCP 1252]" "process_start 850 437 False"]
  by (simp add: process_start_def)

subsection \<open>\<^verbatim>\<open>run_as_admin\<close>\<close>

text \<open>
  Claim C4. \<^verbatim>\<open>run_as_admin\<close> returns \<^verbatim>\<open>true\<close> exactly when the privileged launch succeeded and
  the exit code of the child is zero. When the launch fails it returns \<^verbatim>\<open>false\<close> with one
  warning and calls nothing else; when the launch succeeds it waits for the child without a
  time limit before it reads the exit code, and a non-zero exit code gives \<^verbatim>\<open>false\<close> with one
  warning. The function has no exceptional outcome: its result is always a boolean.
\<close>

theorem run_as_admin_iff:
  "(returned (run_as_admin os exe args) \<longleftrightarrow> shell_execute_ok os \<and> child_exit_code os = 0) \<and>
   (\<not> shell_execute_ok os \<longrightarrow>
      run_as_admin os exe args =
        \<lparr>returned = False, admin_logs = [(LOG_WARNING, ''Could not start process as admin.'')],
         admin_calls = [ShellExecuteEx ''runas'' exe args]\<rparr>) \<and>
   (shell_execute_ok os \<longrightarrow>
      admin_calls (run_as_admin os exe args) =
        [ShellExecuteEx ''runas'' exe args, WaitForSingleObject_INFINITE, GetExitCodeProcess,
         CloseHandle]) \<and>
   (shell_execute_ok os \<and> child_exit_code os \<noteq> 0 \<longrightarrow>
      \<not> returned (run_as_admin os exe args) \<and>
      admin_logs (run_as_admin os exe args) = [(LOG_WARNING, ''Process exited with code != 0.'')]) \<and>
   (returned (run_as_admin os exe args) \<longrightarrow> admin_logs (run_as_admin os exe args) = [])"
  by (simp add: run_as_admin_def Let_def)

theorem run_as_admin_iff_witness:
  "returned (run_as_admin \<lparr>shell_execute_ok = True, child_exit_code = 0\<rparr> ''reg.exe'' ''ADD'') \<and>
   admin_logs (run_as_admin \<lparr>shell_execute_ok = True, child_exit_code = 0\<rparr> ''reg.exe'' ''ADD'') = [] \<and>
   admin_calls (run_as_admin \<lparr>shell_execute_ok = True, child_exit_code = 0\<rparr> ''reg.exe'' ''ADD'') =
     [ShellExecuteEx ''runas'' ''reg.exe'' ''ADD'', WaitForSingleObject_INFINITE,
      GetExitCodeProcess, CloseHandle]"
  using run_as_admin_iff [of "\<lparr>shell_execute_ok = True, child_exit_code = 0\<rparr>" "''reg.exe''" "''ADD''"]
  by simp

subsection \<open>Patterns: backtracking finds exactly the texts the pattern means\<close>

lemma star_rests_self: "s \<in> set (star_rests cs s)"
  by (cases s) simp_all

lemma star_rests_sound:
  "rest \<in> set (star_rests cs s) \<Longrightarrow> \<exists>w. list_all (in_bracket cs) w \<and> s = w @ rest"
proof (induction s)
  case Nil
  then show ?case by simp
next
  case (Cons c s)
  show ?case
  proof (cases "rest = c # s")
    case True
    then show ?thesis by (intro exI [of _ "[]"]) simp
  next
    case False
    with Cons.prems have c: "in_bracket cs c" and "rest \<in> set (star_rests cs s)"
      by (auto split: if_splits)
    with Cons.IH obtain w where "list_all (in_bracket cs) w" "s = w @ rest" by blast
    with c show ?thesis by (intro exI [of _ "c # w"]) simp
  qed
qed

lemma star_rests_complete:
  "list_all (in_bracket cs) w \<Longrightarrow> rest \<in> set (star_rests cs (w @ rest))"
  by (induction w) (simp_all add: star_rests_self)

lemma ms_sound:
  "(rest, c') \<in> set (ms r (s, c)) \<Longrightarrow> \<exists>w. matches r w \<and> s = w @ rest"
proof (induction r arbitrary: s c rest c')
  case (Atom cs)
  then show ?case by (auto split: list.splits if_splits)
next
  case (Star cs)
  then show ?case by (auto dest: star_rests_sound)
next
  case (Plus cs)
  then show ?case
  proof (cases s)
    case Nil
    with Plus show ?thesis by simp
  next
    case (Cons x xs)
    with Plus have x: "in_bracket cs x" and "rest \<in> set (star_rests cs xs)"
      by (auto split: if_splits)
    then obtain w where "list_all (in_bracket cs) w" "xs = w @ rest"
      using star_rests_sound by blast
    with x Cons show ?thesis by (intro exI [of _ "x # w"]) simp
  qed
next
  case (Seq r1 r2)
  from Seq.prems obtain s1 c1 where 1: "(s1, c1) \<in> set (ms r1 (s, c))"
    and 2: "(rest, c') \<in> set (ms r2 (s1, c1))"
    by auto
  from Seq.IH(1) [OF 1] obtain u where u: "matches r1 u" "s = u @ s1" by blast
  from Seq.IH(2) [OF 2] obtain v where v: "matches r2 v" "s1 = v @ rest" by blast
  from u v show ?case by (intro exI [of _ "u @ v"]) auto
next
  case (Group n r)
  from Group.prems obtain c'' where "(rest, c'') \<in> set (ms r (s, c))" by auto
  from Group.IH [OF this] show ?case by simp
next
  case (NonCapture r)
  then show ?case by simp
qed

lemma ms_complete:
  "matches r w \<Longrightarrow> \<exists>c'. (rest, c') \<in> set (ms r (w @ rest, c))"
proof (induction r arbitrary: w rest c)
  case (Atom cs)
  then show ?case by auto
next
  case (Star cs)
  then have "rest \<in> set (star_rests cs (w @ rest))"
    by (simp add: star_rests_complete)
  then show ?case by (intro exI [of _ c]) (simp add: image_iff)
next
  case (Plus cs)
  then obtain x xs where w: "w = x # xs" "in_bracket cs x" and "list_all (in_bracket cs) xs"
    by (cases w) auto
  then have "rest \<in> set (star_rests cs (xs @ rest))"
    by (simp add: star_rests_complete)
  with w show ?case by (intro exI [of _ c]) (simp add: image_iff)
next
  case (Seq r1 r2)
  from Seq.prems obtain u v where w: "w = u @ v" and u: "matches r1 u" and v: "matches r2 v"
    by auto
  from Seq.IH(1) [OF u, of "v @ rest" c] obtain c1
    where 1: "(v @ rest, c1) \<in> set (ms r1 (u @ v @ rest, c))" by blast
  from Seq.IH(2) [OF v, of rest c1] obtain c2
    where 2: "(rest, c2) \<in> set (ms r2 (v @ rest, c1))" by blast
  from 1 2 w show ?case by (auto intro!: exI [of _ c2] bexI [of _ "(v @ rest, c1)"])
next
  case (Group n r)
  from Group.prems have "matches r w" by simp
  from Group.IH [OF this, of rest c] obtain c' where "(rest, c') \<in> set (ms r (w @ rest, c))"
    by blast
  then show ?case by (force intro!: exI [of _ "c'(n \<mapsto> w)"])
next
  case (NonCapture r)
  then show ?case by simp
qed

lemma ms_keeps_captures:
  "mark_count r = 0 \<Longrightarrow> (rest, c') \<in> set (ms r (s, c)) \<Longrightarrow> c' = c"
proof (induction r arbitrary: s c rest c')
  case (Seq r1 r2)
  from Seq.prems obtain s1 c1 where 1: "(s1, c1) \<in> set (ms r1 (s, c))"
    and 2: "(rest, c') \<in> set (ms r2 (s1, c1))"
    by auto
  from Seq.prems have "mark_count r1 = 0" "mark_count r2 = 0" by simp_all
  with Seq.IH 1 2 show ?case by blast
qed (auto split: list.splits if_splits)

lemma ms_group:
  assumes "(rest, c') \<in> set (ms (Group n r) (s, c))"
  shows "\<exists>w. matches r w \<and> s = w @ rest \<and> c' n = Some w"
proof -
  from assms obtain c'' where in_r: "(rest, c'') \<in> set (ms r (s, c))"
    and c': "c' = c''(n \<mapsto> take (length s - length rest) s)"
    by auto
  from ms_sound [OF in_r] obtain w where "matches r w" "s = w @ rest" by blast
  with c' show ?thesis by (intro exI [of _ w]) simp
qed


lemma regex_match_iff: "regex_match r s \<noteq> None \<longleftrightarrow> matches r s"
proof
  assume "regex_match r s \<noteq> None"
  then obtain c where "([], c) \<in> set (ms r (s, Map.empty))"
    by (auto simp: regex_match_def find_None_iff)
  from ms_sound [OF this] show "matches r s" by simp
next
  assume "matches r s"
  from ms_complete [OF this, of "[]" Map.empty] obtain c
    where "([], c) \<in> set (ms r (s, Map.empty))" by auto
  then show "regex_match r s \<noteq> None"
    by (auto simp: regex_match_def find_None_iff)
qed

subsection \<open>Version detection\<close>

text \<open>
  Claim C5. For each of \<^verbatim>\<open>windows_version\<close>, \<^verbatim>\<open>macos_version\<close> and \<^verbatim>\<open>linux_version\<close>: when its
  override variable is set to a non-empty string \<open>S\<close>, the function returns exactly \<open>S\<close> and
  starts no subprocess, whatever the operating system of the host and whatever the subprocess
  runner would answer.
\<close>

theorem version_override:
  "(environment h ''CONDA_OVERRIDE_WIN'' = Some S \<and> S \<noteq> [] \<longrightarrow>
      version (windows_version h) = Inr S \<and> spawned (windows_version h) = []) \<and>
   (environment h ''CONDA_OVERRIDE_OSX'' = Some S \<and> S \<noteq> [] \<longrightarrow>
      version (macos_version h) = Inr S \<and> spawned (macos_version h) = []) \<and>
   (environment h ''CONDA_OVERRIDE_LINUX'' = Some S \<and> S \<noteq> [] \<longrightarrow>
      version (linux_version h) = Inr S \<and> spawned (linux_version h) = [])"
  by (simp add: windows_version_def macos_version_def linux_version_def env_get_def Let_def)

theorem version_override_witness:
  "version (windows_version override_host) = Inr ''10.0.19041'' \<and>
   spawned (windows_version override_host) = [] \<and>
   version (macos_version override_host) = Inr ''13.4'' \<and>
   spawned (macos_version override_host) = [] \<and>
   version (linux_version override_host) = Inr ''5.15.0'' \<and>
   spawned (linux_version override_host) = []"
  using version_override [of override_host "''10.0.19041''"]
    version_override [of override_host "''13.4''"]
    version_override [of override_host "''5.15.0''"]
  by (simp add: override_host_def)


lemma parse_ver_output_three:
  assumes "regex_match ver_output_regex (strip out) = Some rmatch"
    "split (sub_match rmatch 3) CHR ''.'' = a # b # c # others"
  shows "fst (parse_ver_output out) = Inr (a @ ''.'' @ b @ ''.'' @ c)"
  using assms by (simp add: parse_ver_output_def at_index_def concat_strings_def Let_def)

lemma windows_version_runs_ver:
  assumes "env_get (environment h) ''CONDA_OVERRIDE_WIN'' = []" "on_win h"
    "reproc_run h [env_get (environment h) ''COMSPEC'', ''/c'', ''ver''] = (None, out)"
  shows "version (windows_version h) = fst (parse_ver_output out)"
  using assms by (simp add: windows_version_def Let_def)

text \<open>
  What \<^verbatim>\<open>windows_version\<close> does where the third group is long enough. On a Windows host
  without override, when \<^verbatim>\<open>ver\<close> ran: if the stripped output matches the pattern of line 222
  and the third group has at least three components between dots, \<^verbatim>\<open>windows_version\<close> returns
  the first three joined by dots; if the stripped output does not match the pattern, it
  returns \<^verbatim>\<open>0.0.0\<close>.
\<close>

theorem windows_version_three_components:
  assumes "env_get (environment h) ''CONDA_OVERRIDE_WIN'' = []" "on_win h"
    "reproc_run h [env_get (environment h) ''COMSPEC'', ''/c'', ''ver''] = (None, out)"
  shows "(matches ver_output_regex (strip out) \<longrightarrow>
            (\<exists>rmatch. regex_match ver_output_regex (strip out) = Some rmatch \<and>
               (\<forall>a b c others. split (sub_match rmatch 3) CHR ''.'' = a # b # c # others \<longrightarrow>
                  version (windows_version h) = Inr (a @ ''.'' @ b @ ''.'' @ c)))) \<and>
         (\<not> matches ver_output_regex (strip out) \<longrightarrow>
            version (windows_version h) = Inr ''0.0.0'')"
proof (intro conjI impI)
  assume "matches ver_output_regex (strip out)"
  then obtain rmatch where m: "regex_match ver_output_regex (strip out) = Some rmatch"
    using regex_match_iff [of ver_output_regex "strip out"] by auto
  have "\<forall>a b c others. split (sub_match rmatch 3) CHR ''.'' = a # b # c # others \<longrightarrow>
      version (windows_version h) = Inr (a @ ''.'' @ b @ ''.'' @ c)"
    using parse_ver_output_three [OF m] windows_version_runs_ver [OF assms] by simp
  with m show "\<exists>rmatch. regex_match ver_output_regex (strip out) = Some rmatch \<and>
      (\<forall>a b c others. split (sub_match rmatch 3) CHR ''.'' = a # b # c # others \<longrightarrow>
         version (windows_version h) = Inr (a @ ''.'' @ b @ ''.'' @ c))"
    by blast
next
  assume "\<not> matches ver_output_regex (strip out)"
  then have "regex_match ver_output_regex (strip out) = None"
    using regex_match_iff [of ver_output_regex "strip out"] by simp
  then show "version (windows_version h) = Inr ''0.0.0''"
    by (simp add: windows_version_runs_ver [OF assms] parse_ver_output_def Let_def)
qed

lemma windows_host_runs_ver:
  "env_get (environment (windows_host out)) ''CONDA_OVERRIDE_WIN'' = []"
  "on_win (windows_host out)"
  "reproc_run (windows_host out) [env_get (environment (windows_host out)) ''COMSPEC'', ''/c'', ''ver'']
     = (None, out)"
  by (simp_all add: windows_host_def env_get_def)

theorem windows_version_three_components_witness:
  "version (windows_version (windows_host
      (''Microsoft Windows [Version 10.0.19041]'' @ [CHR 0x0D, CHR 0x0A]))) = Inr ''10.0.19041'' \<and>
   version (windows_version (windows_host ''Access is denied.'')) = Inr ''0.0.0''"
proof
  let ?out = "''Microsoft Windows [Version 10.0.19041]'' @ [CHR 0x0D, CHR 0x0A]"
  have "regex_match ver_output_regex (strip ?out) \<noteq> None" by code_simp
  then have m: "matches ver_output_regex (strip ?out)" by (simp only: regex_match_iff)
  have g: "case regex_match ver_output_regex (strip ?out) of None \<Rightarrow> False
      | Some rmatch \<Rightarrow> split (sub_match rmatch 3) CHR ''.'' = [''10'', ''0'', ''19041'']"
    by code_simp
  from windows_version_three_components [OF windows_host_runs_ver, of ?out] m
  obtain rmatch where r: "regex_match ver_output_regex (strip ?out) = Some rmatch"
    and v: "\<And>a b c others. split (sub_match rmatch 3) CHR ''.'' = a # b # c # others \<Longrightarrow>
        version (windows_version (windows_host ?out)) = Inr (a @ ''.'' @ b @ ''.'' @ c)"
    by blast
  from g r have "split (sub_match rmatch 3) CHR ''.'' = [''10'', ''0'', ''19041'']" by simp
  from v [OF this] show "version (windows_version (windows_host ?out)) = Inr ''10.0.19041''"
    by simp
next
  have "regex_match ver_output_regex (strip ''Access is denied.'') = None" by code_simp
  then have "\<not> matches ver_output_regex (strip ''Access is denied.'')"
    using regex_match_iff [of ver_output_regex "strip ''Access is denied.''"] by simp
  with windows_version_three_components [OF windows_host_runs_ver, of "''Access is denied.''"]
  show "version (windows_version (windows_host ''Access is denied.'')) = Inr ''0.0.0''"
    by blast
qed

text \<open>
  Claim C2 says that \<^verbatim>\<open>windows_version\<close> returns the first three components of the third group,
  joined by dots, for every output of \<^verbatim>\<open>ver\<close> that matches the pattern. The output
  \<^verbatim>\<open>Microsoft Windows [Version 6.1]\<close> matches the pattern, and \<^verbatim>\<open>windows_version\<close> returns no
  string for it: the third group has two components, and line 231 reads a third one.
\<close>

theorem windows_version_two_components:
  "matches ver_output_regex (strip ''Microsoft Windows [Version 6.1]'') \<and>
   version (windows_version (windows_host ''Microsoft Windows [Version 6.1]''))
     = Inl (IndexOutOfBounds 2 2)"
proof
  have "regex_match ver_output_regex (strip ''Microsoft Windows [Version 6.1]'') \<noteq> None"
    by code_simp
  then show "matches ver_output_regex (strip ''Microsoft Windows [Version 6.1]'')"
    by (simp only: regex_match_iff)
next
  show "version (windows_version (windows_host ''Microsoft Windows [Version 6.1]''))
      = Inl (IndexOutOfBounds 2 2)"
    by code_simp
qed

text \<open>
  Claim C9 says that the third group of an accepted output always has at least three
  components, so that \<^verbatim>\<open>version_els[2]\<close> on line 231 is in bounds. The pattern accepts
  \<^verbatim>\<open>Microsoft Windows [Version 10.0]\<close>; its third group is \<^verbatim>\<open>10.0\<close>, which has two components,
  and the access to index 2 is out of bounds.
\<close>

theorem ver_output_regex_two_components_out_of_bounds:
  "(case regex_match ver_output_regex (strip ''Microsoft Windows [Version 10.0]'') of
      None \<Rightarrow> False
    | Some rmatch \<Rightarrow>
        sub_match rmatch 3 = ''10.0'' \<and>
        split (sub_match rmatch 3) CHR ''.'' = [''10'', ''0''] \<and>
        at_index (split (sub_match rmatch 3) CHR ''.'') 2 = Inl (IndexOutOfBounds 2 2)) \<and>
   version (windows_version (windows_host ''Microsoft Windows [Version 10.0]''))
     = Inl (IndexOutOfBounds 2 2)"
  by code_simp

subsection \<open>The pattern of \<^verbatim>\<open>linux_version\<close>\<close>

lemma digit_range: "in_bracket [CharRange CHR ''0'' CHR ''9''] = is_digit"
  by (rule ext) (simp add: in_bracket_def is_digit_def Let_def)

lemma ms_Seq:
  "(rest, c') \<in> set (ms (Seq r1 r2) st) \<longleftrightarrow>
   (\<exists>s1 c1. (s1, c1) \<in> set (ms r1 st) \<and> (rest, c') \<in> set (ms r2 (s1, c1)))"
  by auto

lemma lit_bracket: "in_bracket [Lit a] c = (c = a)"
  by (simp add: in_bracket_def)

lemma not_digit: "\<not> is_digit CHR ''.''" "\<not> is_digit CHR ''-''"
  by (simp_all add: is_digit_def)

lemma matches_three_numbers: "matches three_numbers v = is_x_y_z v"
proof
  assume "matches three_numbers v"
  then obtain a b c where "v = a @ ''.'' @ b @ ''.'' @ c"
    "a \<noteq> []" "list_all is_digit a" "b \<noteq> []" "list_all is_digit b" "c \<noteq> []" "list_all is_digit c"
    by (auto simp: three_numbers_def digit_range lit_bracket)
  then show "is_x_y_z v"
    unfolding is_x_y_z_def is_int_def by blast
next
  assume "is_x_y_z v"
  then obtain a b c where v: "v = a @ ''.'' @ b @ ''.'' @ c"
    and abc: "a \<noteq> []" "list_all is_digit a" "b \<noteq> []" "list_all is_digit b"
      "c \<noteq> []" "list_all is_digit c"
    unfolding is_x_y_z_def is_int_def by blast
  have 1: "matches (Seq (Atom [Lit CHR ''.'']) (Plus [CharRange CHR ''0'' CHR ''9''])) (''.'' @ c)"
    using abc by (simp add: digit_range lit_bracket)
  have 2: "matches (Seq (Plus [CharRange CHR ''0'' CHR ''9''])
      (Seq (Atom [Lit CHR ''.'']) (Plus [CharRange CHR ''0'' CHR ''9'']))) (b @ ''.'' @ c)"
    using abc 1 by (subst matches.simps) (intro exI [of _ b] exI [of _ "''.'' @ c"], simp add: digit_range)
  have 3: "matches (Seq (Atom [Lit CHR ''.'']) (Seq (Plus [CharRange CHR ''0'' CHR ''9''])
      (Seq (Atom [Lit CHR ''.'']) (Plus [CharRange CHR ''0'' CHR ''9''])))) (''.'' @ b @ ''.'' @ c)"
    using 2 by (subst matches.simps) (intro exI [of _ "''.''"] exI [of _ "b @ ''.'' @ c"], simp add: lit_bracket)
  show "matches three_numbers v"
    unfolding three_numbers_def v using abc 3
    by (subst matches.simps) (intro exI [of _ a] exI [of _ "''.'' @ b @ ''.'' @ c"], simp add: digit_range)
qed

lemma run_unique:
  assumes "list_all P a" "list_all P a'" "\<not> P x" "\<not> P x'" "a @ x # r = a' @ x' # r'"
  shows "a = a' \<and> r = r'"
proof -
  have "takeWhile P (a @ x # r) = a" "takeWhile P (a' @ x' # r') = a'"
    using assms(1-4) by (simp_all add: list_all_iff)
  with assms(5) have "a = a'" by simp
  with assms(5) show ?thesis by simp
qed

lemma x_y_z_unique:
  assumes "is_x_y_z v" "is_x_y_z v'" "v @ CHR ''-'' # t = v' @ CHR ''-'' # t'"
  shows "v = v'"
proof -
  from assms(1) obtain a b c where v: "v = a @ ''.'' @ b @ ''.'' @ c"
    and abc: "list_all is_digit a" "list_all is_digit b" "list_all is_digit c"
    unfolding is_x_y_z_def is_int_def by blast
  from assms(2) obtain a' b' c' where v': "v' = a' @ ''.'' @ b' @ ''.'' @ c'"
    and abc': "list_all is_digit a'" "list_all is_digit b'" "list_all is_digit c'"
    unfolding is_x_y_z_def is_int_def by blast
  from assms(3) v v'
  have "a @ CHR ''.'' # (b @ CHR ''.'' # (c @ CHR ''-'' # t))
      = a' @ CHR ''.'' # (b' @ CHR ''.'' # (c' @ CHR ''-'' # t'))"
    by simp
  from run_unique [OF abc(1) abc'(1) not_digit(1) not_digit(1) this]
  have a: "a = a'" and "b @ CHR ''.'' # (c @ CHR ''-'' # t) = b' @ CHR ''.'' # (c' @ CHR ''-'' # t')"
    by simp_all
  from run_unique [OF abc(2) abc'(2) not_digit(1) not_digit(1) this(2)]
  have b: "b = b'" and "c @ CHR ''-'' # t = c' @ CHR ''-'' # t'"
    by simp_all
  from run_unique [OF abc(3) abc'(3) not_digit(2) not_digit(2) this(2)]
  have "c = c'" by simp
  with a b v v' show ?thesis by simp
qed

lemma ms_re_sound:
  assumes "(rest, c') \<in> set (ms re (s, Map.empty))"
  shows "\<exists>v t. is_x_y_z v \<and> s = v @ CHR ''-'' # t \<and> c' 1 = Some v"
proof -
  let ?tail = "Seq (Atom [Lit CHR ''-'']) (Star [AnyChar])"
  from assms obtain s1 c1 where 1: "(s1, c1) \<in> set (ms (Group 1 three_numbers) (s, Map.empty))"
    and 2: "(rest, c') \<in> set (ms ?tail (s1, c1))"
    unfolding re_def ms_Seq by blast
  from ms_group [OF 1] obtain v where v: "matches three_numbers v" "s = v @ s1" "c1 1 = Some v"
    by blast
  have "mark_count ?tail = 0" by simp
  from ms_keeps_captures [OF this 2] have c': "c' = c1" .
  from ms_sound [OF 2] obtain u where "matches ?tail u" "s1 = u @ rest" by blast
  then obtain t where "s1 = CHR ''-'' # t" by (auto simp: lit_bracket)
  with v c' show ?thesis by (auto simp: matches_three_numbers)
qed

lemma ms_re_complete:
  assumes "is_x_y_z v"
  shows "ms re (v @ CHR ''-'' # t, Map.empty) \<noteq> []"
proof -
  have "matches (Seq (Atom [Lit CHR ''-'']) (Star [AnyChar])) ''-''"
    by (simp add: lit_bracket)
  with assms have "matches re (v @ ''-'')"
    unfolding re_def by (subst matches.simps) (intro exI [of _ v] exI [of _ "''-''"], simp add: matches_three_numbers)
  from ms_complete [OF this, of t Map.empty] show ?thesis by auto
qed

lemma regex_search_here:
  assumes "ms r (s, Map.empty) \<noteq> []"
  shows "\<exists>rest c. regex_search r s = Some c \<and> (rest, c) \<in> set (ms r (s, Map.empty))"
proof -
  from assms obtain rest c more where "ms r (s, Map.empty) = (rest, c) # more"
    by (cases "ms r (s, Map.empty)") auto
  then show ?thesis by (cases s) auto
qed

lemma regex_search_skip:
  "(\<forall>i < length pre. ms r (drop i (pre @ s), Map.empty) = []) \<Longrightarrow>
   regex_search r (pre @ s) = regex_search r s"
proof (induction pre)
  case Nil
  then show ?case by simp
next
  case (Cons x pre)
  from Cons.prems have "ms r (drop 0 ((x # pre) @ s), Map.empty) = []" by blast
  then have here: "regex_search r ((x # pre) @ s) = regex_search r (pre @ s)" by simp
  have "\<forall>i < length pre. ms r (drop i (pre @ s), Map.empty) = []"
  proof (intro allI impI)
    fix i assume "i < length pre"
    then have "Suc i < length (x # pre)" by simp
    with Cons.prems have "ms r (drop (Suc i) ((x # pre) @ s), Map.empty) = []" by blast
    then show "ms r (drop i (pre @ s), Map.empty) = []" by simp
  qed
  with Cons.IH here show ?case by simp
qed

lemma regex_search_none:
  "(\<forall>i \<le> length s. ms r (drop i s, Map.empty) = []) \<Longrightarrow> regex_search r s = None"
proof (induction s)
  case Nil
  then show ?case by simp
next
  case (Cons x s)
  from Cons.prems have "ms r (drop 0 (x # s), Map.empty) = []" by blast
  then have here: "regex_search r (x # s) = regex_search r s" by simp
  have "\<forall>i \<le> length s. ms r (drop i s, Map.empty) = []"
  proof (intro allI impI)
    fix i assume "i \<le> length s"
    then have "Suc i \<le> length (x # s)" by simp
    with Cons.prems have "ms r (drop (Suc i) (x # s), Map.empty) = []" by blast
    then show "ms r (drop i s, Map.empty) = []" by simp
  qed
  with Cons.IH here show ?case by simp
qed

lemma regex_search_re_first:
  assumes v: "is_x_y_z v"
    and first: "\<forall>pre' v' post'. pre @ v @ ''-'' @ post = pre' @ v' @ ''-'' @ post' \<and> is_x_y_z v'
        \<longrightarrow> length pre \<le> length pre'"
  shows "\<exists>c. regex_search re (pre @ v @ ''-'' @ post) = Some c \<and> c 1 = Some v"
proof -
  define s where "s = v @ ''-'' @ post"
  define out where "out = pre @ s"
  from first have first': "\<And>pre' v' post'. out = pre' @ v' @ ''-'' @ post' \<Longrightarrow> is_x_y_z v'
      \<Longrightarrow> length pre \<le> length pre'"
    unfolding out_def s_def by blast
  have "\<forall>i < length pre. ms re (drop i out, Map.empty) = []"
  proof (intro allI impI, rule ccontr)
    fix i assume i: "i < length pre"
    assume "ms re (drop i out, Map.empty) \<noteq> []"
    then obtain rest c where "(rest, c) \<in> set (ms re (drop i out, Map.empty))"
      by (cases "ms re (drop i out, Map.empty)") auto
    from ms_re_sound [OF this] obtain v' t where v': "is_x_y_z v'" "drop i out = v' @ CHR ''-'' # t"
      by blast
    have "out = take i out @ drop i out" by (rule append_take_drop_id [symmetric])
    with v' have "out = take i out @ v' @ ''-'' @ t" by simp
    from first' [OF this v'(1)] have "length pre \<le> length (take i out)" .
    with i show False by simp
  qed
  then have "regex_search re (pre @ s) = regex_search re s"
    unfolding out_def by (rule regex_search_skip)
  then have skip: "regex_search re (pre @ v @ ''-'' @ post) = regex_search re s"
    by (simp add: s_def)
  from ms_re_complete [OF v, of post] have "ms re (s, Map.empty) \<noteq> []" by (simp add: s_def)
  from regex_search_here [OF this] obtain rest c
    where c: "regex_search re s = Some c" and "(rest, c) \<in> set (ms re (s, Map.empty))"
    by blast
  from ms_re_sound [OF this(2)] obtain v' t
    where v': "is_x_y_z v'" "s = v' @ CHR ''-'' # t" "c 1 = Some v'"
    by blast
  from v'(2) have "v @ CHR ''-'' # post = v' @ CHR ''-'' # t" by (simp add: s_def)
  from x_y_z_unique [OF v v'(1) this] have "v = v'" .
  with c v'(3) skip show ?thesis by simp
qed

lemma regex_search_re_none:
  assumes "\<nexists>pre v post. out = pre @ v @ ''-'' @ post \<and> is_x_y_z v"
  shows "regex_search re out = None"
proof (rule regex_search_none, intro allI impI, rule ccontr)
  fix i assume "ms re (drop i out, Map.empty) \<noteq> []"
  then obtain rest c where "(rest, c) \<in> set (ms re (drop i out, Map.empty))"
    by (cases "ms re (drop i out, Map.empty)") auto
  from ms_re_sound [OF this] obtain v t where v: "is_x_y_z v" "drop i out = v @ CHR ''-'' # t"
    by blast
  have "out = take i out @ drop i out" by (rule append_take_drop_id [symmetric])
  with v have "out = take i out @ v @ ''-'' @ t" by simp
  with v(1) assms show False by blast
qed


lemma linux_version_parse:
  assumes "env_get (environment h) ''CONDA_OVERRIDE_LINUX'' = []" "on_linux h"
    "reproc_run h [''uname'', ''-r''] = (None, out)"
  shows "version (linux_version h) = Inr (case regex_search re out of None \<Rightarrow> [] | Some m \<Rightarrow> sub_match m 1)"
  using assms
  by (simp add: linux_version_def Let_def match_size_def re_def three_numbers_def split: option.splits)

text \<open>
  Claim C6. On a Linux host without override, when \<^verbatim>\<open>uname -r\<close> ran: if the output contains a
  text of the form \<^verbatim>\<open><int>.<int>.<int>\<close> followed by a hyphen, \<^verbatim>\<open>linux_version\<close> returns the
  three numbers of the first such occurrence (the one that starts leftmost), without the hyphen
  and what follows it; if the output contains no such text, it returns the empty string (and
  not \<^verbatim>\<open>0.0.0\<close>).
\<close>

theorem linux_version_first_occurrence:
  assumes "env_get (environment h) ''CONDA_OVERRIDE_LINUX'' = []" "on_linux h"
    "reproc_run h [''uname'', ''-r''] = (None, out)"
  shows "(\<forall>pre v post.
            out = pre @ v @ ''-'' @ post \<and> is_x_y_z v \<and>
            (\<forall>pre' v' post'. out = pre' @ v' @ ''-'' @ post' \<and> is_x_y_z v'
                \<longrightarrow> length pre \<le> length pre')
            \<longrightarrow> version (linux_version h) = Inr v) \<and>
         ((\<nexists>pre v post. out = pre @ v @ ''-'' @ post \<and> is_x_y_z v)
            \<longrightarrow> version (linux_version h) = Inr [])"
proof (intro conjI allI impI)
  fix pre v post
  assume a: "out = pre @ v @ ''-'' @ post \<and> is_x_y_z v \<and>
    (\<forall>pre' v' post'. out = pre' @ v' @ ''-'' @ post' \<and> is_x_y_z v' \<longrightarrow> length pre \<le> length pre')"
  then have out: "out = pre @ v @ ''-'' @ post" and v: "is_x_y_z v" by simp_all
  from a have "\<forall>pre' v' post'. pre @ v @ ''-'' @ post = pre' @ v' @ ''-'' @ post' \<and> is_x_y_z v'
      \<longrightarrow> length pre \<le> length pre'"
    by simp
  from regex_search_re_first [OF v this] obtain c
    where "regex_search re out = Some c" "c 1 = Some v"
    unfolding out by blast
  then show "version (linux_version h) = Inr v"
    by (simp add: linux_version_parse [OF assms] sub_match_def)
next
  assume "\<nexists>pre v post. out = pre @ v @ ''-'' @ post \<and> is_x_y_z v"
  then have "regex_search re out = None" by (rule regex_search_re_none)
  then show "version (linux_version h) = Inr []"
    by (simp add: linux_version_parse [OF assms])
qed

lemma is_x_y_z_example: "is_x_y_z ''5.15.0''"
  unfolding is_x_y_z_def
  by (intro exI [of _ "''5''"] exI [of _ "''15''"] exI [of _ "''0''"])
     (simp add: is_int_def is_digit_def)

theorem linux_version_first_occurrence_witness:
  "version (linux_version (linux_host (''5.15.0-76-generic'' @ [CHR 0x0A]))) = Inr ''5.15.0'' \<and>
   version (linux_version (linux_host ''unknown'')) = Inr []"
proof
  let ?out = "''5.15.0-76-generic'' @ [CHR 0x0A]"
  have h: "env_get (environment (linux_host ?out)) ''CONDA_OVERRIDE_LINUX'' = []"
    "on_linux (linux_host ?out)"
    "reproc_run (linux_host ?out) [''uname'', ''-r''] = (None, ?out)"
    by (simp_all add: linux_host_def env_get_def)
  have "?out = [] @ ''5.15.0'' @ ''-'' @ (''76-generic'' @ [CHR 0x0A])" by simp
  moreover have "\<forall>pre' v' post'. ?out = pre' @ v' @ ''-'' @ post' \<and> is_x_y_z v'
      \<longrightarrow> length ([] :: string) \<le> length pre'"
    by simp
  ultimately show "version (linux_version (linux_host ?out)) = Inr ''5.15.0''"
    using linux_version_first_occurrence [OF h] is_x_y_z_example by blast
next
  have h: "env_get (environment (linux_host ''unknown'')) ''CONDA_OVERRIDE_LINUX'' = []"
    "on_linux (linux_host ''unknown'')"
    "reproc_run (linux_host ''unknown'') [''uname'', ''-r''] = (None, ''unknown'')"
    by (simp_all add: linux_host_def env_get_def)
  have "\<nexists>pre v post. ''unknown'' = pre @ v @ ''-'' @ post \<and> is_x_y_z v"
  proof
    assume "\<exists>pre v post. ''unknown'' = pre @ v @ ''-'' @ post \<and> is_x_y_z v"
    then obtain pre v post where "''unknown'' = pre @ v @ ''-'' @ post" by blast
    then have "CHR ''-'' \<in> set ''unknown''" by (metis in_set_conv_decomp append.assoc append_Cons)
    then show False by simp
  qed
  with linux_version_first_occurrence [OF h] show "version (linux_version (linux_host ''unknown'')) = Inr []"
    by blast
qed

subsection \<open>\<^verbatim>\<open>enable_long_paths_support\<close>: the version check\<close>

lemma stoull_digits:
  assumes "is_int s" "decimal s < 2 ^ 64"
  shows "stoull s = Inr (word_of_int (decimal s))"
proof -
  from assms(1) obtain c cs where s: "s = c # cs" and c: "is_digit c" and all: "list_all is_digit s"
    by (cases s) (auto simp: is_int_def)
  from c have "\<not> is_space c" "c \<noteq> CHR ''-''" "c \<noteq> CHR ''+''"
    by (auto simp: is_digit_def is_space_def Let_def)
  moreover from all have "takeWhile is_digit s = s"
    by (simp add: takeWhile_eq_all_conv list_all_iff)
  ultimately show ?thesis
    using assms(2) s by (simp add: stoull_def Let_def)
qed

lemma version_supported_three:
  assumes "3 \<le> length sp"
  shows "version_supported sp =
    (case stoull (sp ! 0) of
       Inl e \<Rightarrow> Inl e
     | Inr major \<Rightarrow>
         if \<not> 10 \<le> major then Inr False
         else (case stoull (sp ! 2) of Inl e \<Rightarrow> Inl e | Inr build \<Rightarrow> Inr (14352 \<le> build)))"
proof -
  from assms have a0: "at_index sp 0 = Inr (sp ! 0)" and a2: "at_index sp 2 = Inr (sp ! 2)"
    by (auto simp: at_index_def)
  show ?thesis unfolding version_supported_def a0 a2 using assms
    by (simp split: sum.splits)
qed

lemma unsupported_result:
  assumes "version (windows_version (version_host w)) = Inr win_ver"
    "version_supported (split win_ver CHR ''.'') = Inr False"
  shows "enable_long_paths_support w force =
    (quiet (Inr False))\<lparr>events := logs (windows_version (version_host w)) @ [version_warning],
      subprocesses := spawned (windows_version (version_host w))\<rparr>"
  using assms by (simp add: enable_long_paths_support_def Let_def)

lemma throwing_result:
  assumes "version (windows_version (version_host w)) = Inr win_ver"
    "version_supported (split win_ver CHR ''.'') = Inl e"
  shows "enable_long_paths_support w force =
    (quiet (Inl e))\<lparr>events := logs (windows_version (version_host w)),
      subprocesses := spawned (windows_version (version_host w))\<rparr>"
  using assms by (simp add: enable_long_paths_support_def Let_def)

text \<open>
  Claim C3, amended. When the host version string has fewer than three components between
  dots, or \<^verbatim>\<open>std::stoull\<close> reads its first component as a number below 10, or reads the first
  as a number of at least 10 and the third as a number below 14352, then
  \<^verbatim>\<open>enable_long_paths_support(force)\<close> logs the warning and returns \<^verbatim>\<open>false\<close> without any access
  to the registry (no read, no write, no elevated launch), for both values of \<open>force\<close>. More
  generally the registry is untouched whenever the version check does not succeed, also when
  it throws.
\<close>

theorem enable_long_paths_support_unsupported:
  assumes "version (windows_version (version_host w)) = Inr win_ver"
  shows "(length (split win_ver CHR ''.'') < 3 \<or>
          (\<exists>major. stoull (split win_ver CHR ''.'' ! 0) = Inr major \<and> major < 10) \<or>
          (\<exists>major build. stoull (split win_ver CHR ''.'' ! 0) = Inr major \<and> 10 \<le> major \<and>
             stoull (split win_ver CHR ''.'' ! 2) = Inr build \<and> build < 14352)
          \<longrightarrow> result (enable_long_paths_support w force) = Inr False \<and>
              events (enable_long_paths_support w force)
                = logs (windows_version (version_host w)) @ [version_warning] \<and>
              registry (enable_long_paths_support w force) = [] \<and>
              elevated_calls (enable_long_paths_support w force) = []) \<and>
         (version_supported (split win_ver CHR ''.'') \<noteq> Inr True
          \<longrightarrow> registry (enable_long_paths_support w force) = [] \<and>
              elevated_calls (enable_long_paths_support w force) = [])"
proof (intro conjI impI)
  assume "version_supported (split win_ver CHR ''.'') \<noteq> Inr True"
  then consider e where "version_supported (split win_ver CHR ''.'') = Inl e"
    | "version_supported (split win_ver CHR ''.'') = Inr False"
    by (cases "version_supported (split win_ver CHR ''.'')") auto
  then have "registry (enable_long_paths_support w force) = [] \<and>
      elevated_calls (enable_long_paths_support w force) = []"
  proof cases
    case 1
    then show ?thesis by (simp add: throwing_result [OF assms] quiet_def)
  next
    case 2
    then show ?thesis by (simp add: unsupported_result [OF assms] quiet_def)
  qed
  then show "registry (enable_long_paths_support w force) = []"
    "elevated_calls (enable_long_paths_support w force) = []"
    by simp_all
next
  assume "length (split win_ver CHR ''.'') < 3 \<or>
          (\<exists>major. stoull (split win_ver CHR ''.'' ! 0) = Inr major \<and> major < 10) \<or>
          (\<exists>major build. stoull (split win_ver CHR ''.'' ! 0) = Inr major \<and> 10 \<le> major \<and>
             stoull (split win_ver CHR ''.'' ! 2) = Inr build \<and> build < 14352)"
  then have "version_supported (split win_ver CHR ''.'') = Inr False"
    by (auto simp: version_supported_def at_index_def not_le)
  from unsupported_result [OF assms this]
  show "result (enable_long_paths_support w force) = Inr False"
    "events (enable_long_paths_support w force)
       = logs (windows_version (version_host w)) @ [version_warning]"
    "registry (enable_long_paths_support w force) = []"
    "elevated_calls (enable_long_paths_support w force) = []"
    by (simp_all add: quiet_def)
qed

lemma host_with_version_version:
  "win_ver \<noteq> [] \<Longrightarrow> version (windows_version (version_host (host_with_version win_ver))) = Inr win_ver"
  by (simp add: host_with_version_def windows_version_def env_get_def Let_def)

theorem enable_long_paths_support_unsupported_witness:
  "result (enable_long_paths_support (host_with_version ''10.0.14351'') True) = Inr False \<and>
   registry (enable_long_paths_support (host_with_version ''10.0.14351'') True) = [] \<and>
   result (enable_long_paths_support (host_with_version ''6.1.7601'') False) = Inr False \<and>
   registry (enable_long_paths_support (host_with_version ''6.1.7601'') False) = [] \<and>
   result (enable_long_paths_support (host_with_version ''10.0'') False) = Inr False \<and>
   registry (enable_long_paths_support (host_with_version ''10.0'') False) = []"
proof -
  have a: "stoull (split ''10.0.14351'' CHR ''.'' ! 0) = Inr 10 \<and> (10 :: 64 word) \<le> 10 \<and>
      stoull (split ''10.0.14351'' CHR ''.'' ! 2) = Inr 14351 \<and> (14351 :: 64 word) < 14352"
    by code_simp
  have b: "stoull (split ''6.1.7601'' CHR ''.'' ! 0) = Inr 6 \<and> (6 :: 64 word) < 10"
    by code_simp
  have c: "length (split ''10.0'' CHR ''.'') < 3"
    by code_simp
  from a enable_long_paths_support_unsupported
    [OF host_with_version_version, where win_ver = "''10.0.14351''" and force = True]
  have 1: "result (enable_long_paths_support (host_with_version ''10.0.14351'') True) = Inr False \<and>
    registry (enable_long_paths_support (host_with_version ''10.0.14351'') True) = []"
    by blast
  from b enable_long_paths_support_unsupported
    [OF host_with_version_version, where win_ver = "''6.1.7601''" and force = False]
  have 2: "result (enable_long_paths_support (host_with_version ''6.1.7601'') False) = Inr False \<and>
    registry (enable_long_paths_support (host_with_version ''6.1.7601'') False) = []"
    by blast
  from c enable_long_paths_support_unsupported
    [OF host_with_version_version, where win_ver = "''10.0''" and force = False]
  have 3: "result (enable_long_paths_support (host_with_version ''10.0'') False) = Inr False \<and>
    registry (enable_long_paths_support (host_with_version ''10.0'') False) = []"
    by blast
  from 1 2 3 show ?thesis by simp
qed

text \<open>
  Claim C3 as it is stated fails: the third component of \<^verbatim>\<open>x.0.100\<close> is below 14352, and the
  function does not return \<^verbatim>\<open>false\<close>: the first component is parsed first, and
  \<^verbatim>\<open>std::stoull\<close> throws.
\<close>

theorem enable_long_paths_support_unsupported_counterexample:
  "stoull (split ''x.0.100'' CHR ''.'' ! 2) = Inr 100 \<and> (100 :: 64 word) < 14352 \<and>
   result (enable_long_paths_support (host_with_version ''x.0.100'') True)
     = Inl (InvalidArgument ''invalid stoull argument'') \<and>
   result (enable_long_paths_support (host_with_version ''x.0.100'') False)
     = Inl (InvalidArgument ''invalid stoull argument'')"
  by code_simp

text \<open>
  Claim C10, amended. When the host version string has at least three components between dots
  and \<^verbatim>\<open>std::stoull\<close> rejects the first one, or reads the first one as a number of at least 10
  and rejects the third one, that exception leaves \<^verbatim>\<open>enable_long_paths_support\<close>, which does
  not return \<^verbatim>\<open>false\<close>. When the first component reads as a number below 10, the third one is
  never parsed and the function returns \<^verbatim>\<open>false\<close>.
\<close>

theorem enable_long_paths_support_throws:
  assumes "version (windows_version (version_host w)) = Inr win_ver"
    "3 \<le> length (split win_ver CHR ''.'')"
  shows "(stoull (split win_ver CHR ''.'' ! 0) = Inl e
          \<longrightarrow> result (enable_long_paths_support w force) = Inl e) \<and>
         (stoull (split win_ver CHR ''.'' ! 0) = Inr major \<and> 10 \<le> major \<and>
          stoull (split win_ver CHR ''.'' ! 2) = Inl e
          \<longrightarrow> result (enable_long_paths_support w force) = Inl e) \<and>
         (stoull (split win_ver CHR ''.'' ! 0) = Inr major \<and> major < 10
          \<longrightarrow> result (enable_long_paths_support w force) = Inr False)"
proof (intro conjI impI)
  assume "stoull (split win_ver CHR ''.'' ! 0) = Inl e"
  then have "version_supported (split win_ver CHR ''.'') = Inl e"
    by (simp add: version_supported_three [OF assms(2)])
  from throwing_result [OF assms(1) this]
  show "result (enable_long_paths_support w force) = Inl e" by (simp add: quiet_def)
next
  assume "stoull (split win_ver CHR ''.'' ! 0) = Inr major \<and> 10 \<le> major \<and>
          stoull (split win_ver CHR ''.'' ! 2) = Inl e"
  then have "version_supported (split win_ver CHR ''.'') = Inl e"
    by (simp add: version_supported_three [OF assms(2)])
  from throwing_result [OF assms(1) this]
  show "result (enable_long_paths_support w force) = Inl e" by (simp add: quiet_def)
next
  assume "stoull (split win_ver CHR ''.'' ! 0) = Inr major \<and> major < 10"
  then have "version_supported (split win_ver CHR ''.'') = Inr False"
    by (simp add: version_supported_three [OF assms(2)] not_le)
  from unsupported_result [OF assms(1) this]
  show "result (enable_long_paths_support w force) = Inr False" by (simp add: quiet_def)
qed

theorem enable_long_paths_support_throws_witness:
  "result (enable_long_paths_support (host_with_version ''latest.0.1'') False)
     = Inl (InvalidArgument ''invalid stoull argument'') \<and>
   result (enable_long_paths_support (host_with_version ''10.0.latest'') True)
     = Inl (InvalidArgument ''invalid stoull argument'') \<and>
   result (enable_long_paths_support (host_with_version ''6.1.latest'') True) = Inr False"
proof -
  have a: "3 \<le> length (split ''latest.0.1'' CHR ''.'')"
    "stoull (split ''latest.0.1'' CHR ''.'' ! 0) = Inl (InvalidArgument ''invalid stoull argument'')"
    by code_simp+
  have b: "3 \<le> length (split ''10.0.latest'' CHR ''.'')"
    "stoull (split ''10.0.latest'' CHR ''.'' ! 0) = Inr 10 \<and> (10 :: 64 word) \<le> 10 \<and>
     stoull (split ''10.0.latest'' CHR ''.'' ! 2) = Inl (InvalidArgument ''invalid stoull argument'')"
    by code_simp+
  have c: "3 \<le> length (split ''6.1.latest'' CHR ''.'')"
    "stoull (split ''6.1.latest'' CHR ''.'' ! 0) = Inr 6 \<and> (6 :: 64 word) < 10"
    by code_simp+
  from a(2) enable_long_paths_support_throws [OF host_with_version_version a(1), where force = False]
  have 1: "result (enable_long_paths_support (host_with_version ''latest.0.1'') False)
     = Inl (InvalidArgument ''invalid stoull argument'')"
    by blast
  from b(2) enable_long_paths_support_throws [OF host_with_version_version b(1), where force = True]
  have 2: "result (enable_long_paths_support (host_with_version ''10.0.latest'') True)
     = Inl (InvalidArgument ''invalid stoull argument'')"
    by blast
  from c(2) enable_long_paths_support_throws [OF host_with_version_version c(1), where force = True]
  have 3: "result (enable_long_paths_support (host_with_version ''6.1.latest'') True) = Inr False"
    by blast
  from 1 2 3 show ?thesis by simp
qed

text \<open>
  Claim C10 as it is stated fails: \<^verbatim>\<open>9.0.abc\<close> has three components and its third one is not
  a number, and the function returns \<^verbatim>\<open>false\<close> without an exception.
\<close>

theorem enable_long_paths_support_throws_counterexample:
  "3 \<le> length (split ''9.0.abc'' CHR ''.'') \<and>
   stoull (split ''9.0.abc'' CHR ''.'' ! 2) = Inl (InvalidArgument ''invalid stoull argument'') \<and>
   result (enable_long_paths_support (host_with_version ''9.0.abc'') True) = Inr False \<and>
   result (enable_long_paths_support (host_with_version ''9.0.abc'') False) = Inr False"
  by code_simp

subsection \<open>\<^verbatim>\<open>to_utf8\<close>\<close>

lemma to_utf8_empty: "to_utf8 os [] = \<lparr>utf8 = Inr [], utf8_events = [], utf8_calls = []\<rparr>"
  by (simp add: to_utf8_def)

lemma to_utf8_failure:
  assumes "w \<noteq> []" "int (length w) \<le> INT_MAX" "required_size os w \<le> 0"
  shows "to_utf8 os w =
    \<lparr>utf8 = Inl (RuntimeError ''Failed to convert string to UTF-8''),
     utf8_events = [(LOG_ERROR, ''Failed to convert string to UTF-8 '' @
        system_message os (sint (GetLastError os)))],
     utf8_calls = [QuerySize w]\<rparr>"
  using assms by (simp add: to_utf8_def Let_def)

lemma occurs_in_suffix: "occurs_in t (s @ t)"
proof -
  have "length s \<in> set [0..<Suc (length (s @ t))]" by simp
  moreover have "take (length t) (drop (length s) (s @ t)) = t" by simp
  ultimately show ?thesis unfolding occurs_in_def list_ex_iff by blast
qed

text \<open>
  Claim C7, amended. On an input of length zero \<^verbatim>\<open>to_utf8\<close> returns the empty string and does
  not call the conversion of the operating system. On a non-empty input (of at most
  \<^verbatim>\<open>INT_MAX\<close> characters) for which the conversion fails, it returns no sentinel: it logs one
  error event whose text carries the error text that the operating system reports, and throws
  a \<^verbatim>\<open>std::runtime_error\<close> whose text is the fixed \<^verbatim>\<open>Failed to convert string to UTF-8\<close>.
\<close>

theorem to_utf8_fails_with_fixed_text:
  "(w = [] \<longrightarrow> to_utf8 os w = \<lparr>utf8 = Inr [], utf8_events = [], utf8_calls = []\<rparr>) \<and>
   (w \<noteq> [] \<and> int (length w) \<le> INT_MAX \<and> required_size os w \<le> 0 \<longrightarrow>
      utf8 (to_utf8 os w) = Inl (RuntimeError ''Failed to convert string to UTF-8'') \<and>
      (\<exists>text. utf8_events (to_utf8 os w) = [(LOG_ERROR, text)] \<and>
         occurs_in (system_message os (sint (GetLastError os))) text))"
proof (intro conjI impI)
  assume "w = []"
  then show "to_utf8 os w = \<lparr>utf8 = Inr [], utf8_events = [], utf8_calls = []\<rparr>"
    by (simp add: to_utf8_empty)
next
  assume a: "w \<noteq> [] \<and> int (length w) \<le> INT_MAX \<and> required_size os w \<le> 0"
  then have r: "to_utf8 os w =
    \<lparr>utf8 = Inl (RuntimeError ''Failed to convert string to UTF-8''),
     utf8_events = [(LOG_ERROR, ''Failed to convert string to UTF-8 '' @
        system_message os (sint (GetLastError os)))],
     utf8_calls = [QuerySize w]\<rparr>"
    by (simp add: to_utf8_failure)
  then show "utf8 (to_utf8 os w) = Inl (RuntimeError ''Failed to convert string to UTF-8'')"
    by simp
  from r occurs_in_suffix [of "system_message os (sint (GetLastError os))"
      "''Failed to convert string to UTF-8 ''"]
  show "\<exists>text. utf8_events (to_utf8 os w) = [(LOG_ERROR, text)] \<and>
      occurs_in (system_message os (sint (GetLastError os))) text"
    by simp
qed

theorem to_utf8_fails_with_fixed_text_witness:
  "to_utf8 failing_conversion [] = \<lparr>utf8 = Inr [], utf8_events = [], utf8_calls = []\<rparr> \<and>
   utf8 (to_utf8 failing_conversion [0x41])
     = Inl (RuntimeError ''Failed to convert string to UTF-8'')"
proof -
  have "[0x41 :: 16 word] \<noteq> [] \<and> int (length [0x41 :: 16 word]) \<le> INT_MAX \<and>
      required_size failing_conversion [0x41] \<le> 0"
    by (simp add: INT_MAX_def failing_conversion_def)
  with to_utf8_fails_with_fixed_text [of "[]" failing_conversion]
    to_utf8_fails_with_fixed_text [of "[0x41]" failing_conversion]
  show ?thesis by blast
qed

text \<open>
  Claim C7 as it is stated fails: when the conversion fails with the system's text
  \<^verbatim>\<open>The parameter is incorrect.\<close>, that text does not occur in the text of the exception that
  \<^verbatim>\<open>to_utf8\<close> throws.
\<close>

theorem to_utf8_error_text_counterexample:
  "required_size failing_conversion [0x41] \<le> 0 \<and>
   system_message failing_conversion (sint (GetLastError failing_conversion))
     = ''The parameter is incorrect.'' \<and>
   utf8 (to_utf8 failing_conversion [0x41])
     = Inl (RuntimeError ''Failed to convert string to UTF-8'') \<and>
   \<not> occurs_in ''The parameter is incorrect.''
       (what (RuntimeError ''Failed to convert string to UTF-8''))"
  by code_simp

subsection \<open>\<^verbatim>\<open>get_self_exe_path\<close>\<close>

lemma unat_MAX_PATH: "unat (word_of_nat MAX_PATH :: 32 word) = MAX_PATH"
  by (simp add: MAX_PATH_def)

lemma os_long:
  assumes "MAX_PATH \<le> length path"
  shows "GetModuleFileNameW (Some path) MAX_PATH = (take (MAX_PATH - 1) path @ [0], word_of_nat MAX_PATH)"
  using assms by (simp add: GetModuleFileNameW_def MAX_PATH_def)

lemma os_short:
  assumes "length path < MAX_PATH"
  shows "GetModuleFileNameW (Some path) MAX_PATH = (path @ [0], word_of_nat (length path))"
  using assms by (simp add: GetModuleFileNameW_def MAX_PATH_def)

lemma store_long:
  assumes "MAX_PATH \<le> length path" "length (chars buffer) = MAX_PATH"
  shows "chars (store buffer (take (MAX_PATH - 1) path @ [0])) = take (MAX_PATH - 1) path @ [0]"
  using assms by (simp add: store_def MAX_PATH_def)

lemma grow_long:
  assumes "MAX_PATH \<le> length path" "length (chars buffer) = MAX_PATH"
  shows "grow (GetModuleFileNameW (Some path)) buffer (word_of_nat MAX_PATH)
    = Some (store (reserve buffer (2 * MAX_PATH)) (take (MAX_PATH - 1) path @ [0]), word_of_nat MAX_PATH)"
proof -
  have size: "length (chars (reserve buffer n)) = MAX_PATH" for n
    using assms(2) by (simp add: reserve_def)
  have "(word_of_nat MAX_PATH :: 32 word) * 2 \<noteq> word_of_nat MAX_PATH"
    by (simp add: MAX_PATH_def)
  moreover have "unat ((word_of_nat MAX_PATH :: 32 word) * 2) = 2 * MAX_PATH"
    by (simp add: MAX_PATH_def)
  ultimately show ?thesis
    by (subst grow.simps) (simp add: Let_def size os_long [OF assms(1)])
qed

lemma takeWhile_terminated:
  "(0 :: 16 word) \<notin> set p \<Longrightarrow> takeWhile (\<lambda>c. c \<noteq> 0) (p @ 0 # rest) = p"
  by (induction p) auto

lemma get_self_exe_path_long:
  assumes "MAX_PATH \<le> length path" "0 \<notin> set path"
  shows "get_self_exe_path (GetModuleFileNameW (Some path)) absolute
    = Some (Inr (absolute (take (MAX_PATH - 1) path)))"
proof -
  define p where "p = take (MAX_PATH - 1) path"
  define b0 where "b0 = \<lparr>chars = replicate MAX_PATH (0 :: 16 word), capacity = MAX_PATH\<rparr>"
  define b1 where "b1 = store b0 (p @ [0])"
  define b2 where "b2 = store (reserve b1 (2 * MAX_PATH)) (p @ [0])"
  have os: "GetModuleFileNameW (Some path) MAX_PATH = (p @ [0], word_of_nat MAX_PATH)"
    unfolding p_def by (rule os_long [OF assms(1)])
  have l0: "length (chars b0) = MAX_PATH" by (simp add: b0_def)
  have c1: "chars b1 = p @ [0]"
    unfolding b1_def p_def by (rule store_long [OF assms(1) l0])
  have l1: "length (chars b1) = MAX_PATH"
    unfolding c1 p_def using assms(1) by (simp add: MAX_PATH_def)
  have g: "grow (GetModuleFileNameW (Some path)) b1 (word_of_nat MAX_PATH)
    = Some (b2, word_of_nat MAX_PATH)"
    unfolding b2_def p_def by (rule grow_long [OF assms(1) l1])
  have "length (chars (reserve b1 (2 * MAX_PATH))) = MAX_PATH"
    using l1 by (simp add: reserve_def)
  from store_long [OF assms(1) this]
  have c2: "chars b2 = p @ [0]" unfolding b2_def p_def .
  from assms(2) have "0 \<notin> set p" unfolding p_def by (auto dest: in_set_takeD)
  then have t: "trim b2 = Inr p"
    by (simp add: trim_def c2 takeWhile_terminated)
  have nz: "(word_of_nat MAX_PATH :: 32 word) \<noteq> 0" by (simp add: MAX_PATH_def)
  have "get_self_exe_path (GetModuleFileNameW (Some path)) absolute = Some (Inr (absolute p))"
    unfolding get_self_exe_path_def Let_def b0_def [symmetric]
    by (simp add: l0 os b1_def [symmetric] nz unat_MAX_PATH l1 g t)
  then show ?thesis by (simp only: p_def)
qed

lemma get_self_exe_path_short:
  assumes "length path < MAX_PATH" "path \<noteq> []" "0 \<notin> set path"
  shows "get_self_exe_path (GetModuleFileNameW (Some path)) absolute = Some (Inr (absolute path))"
proof -
  define b0 where "b0 = \<lparr>chars = replicate MAX_PATH (0 :: 16 word), capacity = MAX_PATH\<rparr>"
  define b1 where "b1 = store b0 (path @ [0])"
  have c1: "chars b1 = path @ 0 # replicate (MAX_PATH - Suc (length path)) 0"
    using assms(1) by (simp add: b1_def b0_def store_def)
  from assms(1) have u: "unat (word_of_nat (length path) :: 32 word) = length path"
    by (simp add: MAX_PATH_def unat_of_nat)
  with assms(2) have nz: "(word_of_nat (length path) :: 32 word) \<noteq> 0"
    by (metis length_0_conv unat_0_iff)
  have l1: "length (chars b1) = MAX_PATH"
    by (simp add: b1_def b0_def store_def)
  from assms(1) u l1 have ne: "unat (word_of_nat (length path) :: 32 word) \<noteq> length (chars b1)"
    by simp
  from assms(3) have t: "trim b1 = Inr path"
    by (simp add: trim_def c1 takeWhile_terminated)
  have l0: "length (chars b0) = MAX_PATH" by (simp add: b0_def)
  show ?thesis
    unfolding get_self_exe_path_def Let_def b0_def [symmetric]
    by (simp add: l0 os_short [OF assms(1)] b1_def [symmetric] nz ne t)
qed

text \<open>
  Claim C1 says that \<^verbatim>\<open>get_self_exe_path\<close> retries with a doubled buffer until the returned size
  is below the size of the buffer, so that it never returns a cut path. The loop calls
  \<^verbatim>\<open>reserve\<close>, which leaves \<^verbatim>\<open>buffer.size()\<close> at \<^verbatim>\<open>MAX_PATH\<close>, hands that same size to the system
  again, and stops after one round because the doubled \<open>new_size\<close> differs from the returned
  size. For an executable path of 300 characters the function returns its first 259
  characters; the loop ends with a returned size equal to the size of the buffer.
\<close>

theorem get_self_exe_path_truncates:
  "get_self_exe_path (GetModuleFileNameW (Some (replicate 300 0x61))) (\<lambda>p. p)
     = Some (Inr (replicate 259 0x61)) \<and>
   (case grow (GetModuleFileNameW (Some (replicate 300 0x61)))
           \<lparr>chars = replicate 259 0x61 @ [0], capacity = 260\<rparr> 260 of
      None \<Rightarrow> False
    | Some (buffer, returned_size) \<Rightarrow>
        unat returned_size = 260 \<and> length (chars buffer) = 260 \<and> capacity buffer = 520)"
proof
  show "case grow (GetModuleFileNameW (Some (replicate 300 0x61)))
           \<lparr>chars = replicate 259 0x61 @ [0], capacity = 260\<rparr> 260 of
      None \<Rightarrow> False
    | Some (buffer, returned_size) \<Rightarrow>
        unat returned_size = 260 \<and> length (chars buffer) = 260 \<and> capacity buffer = 520"
    by code_simp
next
  have "MAX_PATH \<le> length (replicate 300 (0x61 :: 16 word))" by (simp add: MAX_PATH_def)
  moreover have "0 \<notin> set (replicate 300 (0x61 :: 16 word))" by simp
  ultimately have "get_self_exe_path (GetModuleFileNameW (Some (replicate 300 0x61))) (\<lambda>p. p)
    = Some (Inr (take (MAX_PATH - 1) (replicate 300 0x61)))"
    by (rule get_self_exe_path_long)
  then show "get_self_exe_path (GetModuleFileNameW (Some (replicate 300 0x61))) (\<lambda>p. p)
     = Some (Inr (replicate 259 0x61))"
    by (simp add: MAX_PATH_def)
qed

end
